theory Spec2Isabelle
  imports Main "HOL-Library.Word" "HOL-Library.Char_ord" "HOL-Library.List_Lexorder" "HOL-Library.AList"
begin

unbundle bit_operations_syntax

section \<open>Bytes, buffers and errors\<close>

text \<open>
  The codec of \<^verbatim>\<open>abieos.hpp\<close> appends to \<^verbatim>\<open>std::vector<char>\<close> output buffers and reads
  from an \<^verbatim>\<open>input_buffer\<close>, a pair of pointers \<^verbatim>\<open>pos\<close> and \<^verbatim>\<open>end\<close>. The model keeps of
  an input buffer the bytes from \<^verbatim>\<open>pos\<close> up to \<^verbatim>\<open>end\<close>: advancing \<^verbatim>\<open>pos\<close> drops bytes
  from the front, and \<^verbatim>\<open>end - pos\<close> is the length of the list. Each
  \<^verbatim>\<open>throw std::runtime_error(msg)\<close> of the source is a constructor of \<open>error\<close>; a
  function that can throw returns \<open>error + 'a\<close>. A handler that returns \<^verbatim>\<open>false\<close>
  (a null \<^verbatim>\<open>ser\<close> pointer) is the value \<open>Inl returned_false\<close>. Where the C++ is
  undefined (\<^verbatim>\<open>back()\<close> of an empty vector, an index out of range, a null
  pointer dereferenced) the model returns \<open>Inl undefined_behavior\<close>.
\<close>

type_synonym byte = "8 word"
type_synonym input_buffer = "byte list"

datatype error =
    read_past_end                 \<comment> \<open>"read past end"\<close>
  | invalid_string_size           \<comment> \<open>"invalid string size"\<close>
  | invalid_bytes_size            \<comment> \<open>"invalid bytes size"\<close>
  | recursion_limit_reached       \<comment> \<open>"recursion limit reached"\<close>
  | abi_recursion_limit_reached   \<comment> \<open>"abi recursion limit reached"\<close>
  | no_nesting                    \<comment> \<open>"optional and array don't support nesting"\<close>
  | unknown_type string           \<comment> \<open>"unknown type ..."\<close>
  | not_a_struct string           \<comment> \<open>"abi type ... is not a struct"\<close>
  | missing_type_name             \<comment> \<open>"abi has a type with a missing name"\<close>
  | missing_struct_name           \<comment> \<open>"abi has a struct with a missing name"\<close>
  | redefines_type string         \<comment> \<open>"abi redefines type ..."\<close>
  | bad_number_format             \<comment> \<open>"number is out of range or has bad format"\<close>
  | number_out_of_range           \<comment> \<open>"number is out of range"\<close>
  | expected_non_negative         \<comment> \<open>"expected non-negative number"\<close>
  | expected_number_or_boolean    \<comment> \<open>"expected number or boolean"\<close>
  | odd_hex_digits                \<comment> \<open>"odd number of hex digits"\<close>
  | expected_hex_string           \<comment> \<open>"expected hex string"\<close>
  | hex_incorrect_length          \<comment> \<open>"hex string has incorrect length"\<close>
  | expected_string string        \<comment> \<open>"expected string containing ..." and "expected string"\<close>
  | expected_object               \<comment> \<open>"expected object"\<close>
  | expected_array                \<comment> \<open>"expected array"\<close>
  | expected_field string         \<comment> \<open>"expected field ..."\<close>
  | unexpected_field string       \<comment> \<open>"unexpected field ..."\<close>
  | external_error                \<comment> \<open>an exception thrown by a helper outside this file\<close>
  | returned_false                \<comment> \<open>a handler returned \<^verbatim>\<open>false\<close>\<close>
  | undefined_behavior            \<comment> \<open>the C++ is undefined at this point\<close>

text \<open>\<^verbatim>\<open>read_bin(bin, dest, size)\<close>: the next \<open>n\<close> bytes, or "read past end".\<close>

definition read_bin :: "input_buffer \<Rightarrow> nat \<Rightarrow> error + (byte list \<times> input_buffer)" where
  "read_bin bin n =
     (if length bin < n then Inl read_past_end
      else Inr (take n bin, drop n bin))"

text \<open>
  \<^verbatim>\<open>push_raw\<close> copies the object representation of a trivially copyable value; for the
  integers of this file that is the little-endian byte sequence (the wire format is
  little-endian and the source relies on the host being so).
\<close>

fun le_bytes :: "nat \<Rightarrow> nat \<Rightarrow> byte list" where
  "le_bytes 0 v = []"
| "le_bytes (Suc n) v = word_of_nat (v mod 256) # le_bytes n (v div 256)"

definition push_raw :: "'a::len word \<Rightarrow> byte list" where
  "push_raw w = le_bytes (LENGTH('a) div 8) (unat w)"

fun from_le_bytes :: "byte list \<Rightarrow> nat" where
  "from_le_bytes [] = 0"
| "from_le_bytes (b # bs) = unat b + 256 * from_le_bytes bs"

text \<open>A \<^verbatim>\<open>std::string\<close> is a sequence of 8-bit \<^verbatim>\<open>char\<close>s.\<close>

definition byte_of_char :: "char \<Rightarrow> byte" where
  "byte_of_char c = of_char c"

definition char_of_byte :: "byte \<Rightarrow> char" where
  "char_of_byte b = char_of (unat b)"

text \<open>
  \<^verbatim>\<open>s.c_str()\<close> read as a C string ends at the first NUL; \<open>c_at s i\<close> is \<^verbatim>\<open>str[i]\<close> for
  \<open>i\<close> up to and including the terminating NUL.
\<close>

definition c_str :: "string \<Rightarrow> string" where
  "c_str s = takeWhile (\<lambda>c. c \<noteq> CHR 0x00) s"

definition c_at :: "string \<Rightarrow> nat \<Rightarrow> char" where
  "c_at str i = (if i < length str then str ! i else CHR 0x00)"

section \<open>varuint32\<close>

text \<open>
  \<^verbatim>\<open>push_varuint32\<close> copies \<open>v\<close> into a 64-bit \<open>val\<close> and runs a do-while loop: each
  round takes the low 7 bits, shifts \<open>val\<close> right by 7, sets bit 7 of the byte when
  \<open>val > 0\<close> remains, appends the byte, and goes on while \<open>val\<close> is not zero.
\<close>

function push_varuint32_loop :: "64 word \<Rightarrow> byte list" where
  "push_varuint32_loop val =
     (let b = (ucast (val AND 0x7f) :: byte);
          val' = drop_bit 7 val;
          b' = b OR push_bit 7 (if val' > 0 then 1 else 0)
      in if val' \<noteq> 0 then b' # push_varuint32_loop val' else [b'])"
  by pat_completeness auto
termination
proof (relation "measure unat")
  show "wf (measure (unat :: 64 word \<Rightarrow> nat))" by simp
next
  fix val :: "64 word" and x xa xb
  assume "xa = drop_bit 7 val" and "xa \<noteq> 0"
  then have nz: "unat (drop_bit 7 val) \<noteq> 0"
    by (simp add: unat_eq_0)
  have "unat (drop_bit 7 val) = drop_bit 7 (unat val)"
    by (rule unat_drop_bit_eq)
  also have "\<dots> = unat val div 2 ^ 7"
    by (rule drop_bit_eq_div)
  finally have "unat (drop_bit 7 val) = unat val div 2 ^ 7" .
  with nz have "unat (drop_bit 7 val) < unat val"
    by simp
  with \<open>xa = drop_bit 7 val\<close> show "(xa, val) \<in> measure unat" by simp
qed

declare push_varuint32_loop.simps [simp del]

definition push_varuint32 :: "32 word \<Rightarrow> byte list" where
  "push_varuint32 v = push_varuint32_loop (ucast v)"

text \<open>
  \<^verbatim>\<open>read_varuint32\<close>: a do-while loop that reads one byte per round, ors its low 7 bits
  into \<open>result\<close> at \<open>shift\<close>, adds 7 to \<open>shift\<close>, and goes on while bit 7 of the byte
  is set. There is no bound on the number of rounds other than the end of the input,
  where \<^verbatim>\<open>read_bin\<close> throws.

  The shift \<^verbatim>\<open>(b & 0x7f) << shift\<close> is a shift of a 32-bit operand: bits shifted beyond
  bit 31 are lost. From the sixth byte on \<open>shift\<close> is 35 or more, a count that C++
  leaves undefined for this operand; the shift instruction of the compiled code takes
  the count modulo 32, and so does the model. For the first five bytes
  \<open>shift mod 32 = shift\<close>.
\<close>

fun read_varuint32_loop ::
  "32 word \<Rightarrow> nat \<Rightarrow> input_buffer \<Rightarrow> error + (32 word \<times> input_buffer)" where
  "read_varuint32_loop result shift [] = Inl read_past_end"
| "read_varuint32_loop result shift (b # bin) =
     (let result' = result OR push_bit (shift mod 32) (ucast (b AND 0x7f));
          shift' = shift + 7
      in if b AND 0x80 \<noteq> 0 then read_varuint32_loop result' shift' bin
         else Inr (result', bin))"

definition read_varuint32 :: "input_buffer \<Rightarrow> error + (32 word \<times> input_buffer)" where
  "read_varuint32 bin = read_varuint32_loop 0 0 bin"

text \<open>
  \<^verbatim>\<open>read_string\<close> (used by \<^verbatim>\<open>bin_to_json\<close>): the length prefix, the check
  \<^verbatim>\<open>size > bin.end - bin.pos\<close>, then the bytes.
\<close>

definition read_string :: "input_buffer \<Rightarrow> error + (string \<times> input_buffer)" where
  "read_string bin =
     (case read_varuint32 bin of
        Inl e \<Rightarrow> Inl e
      | Inr (sz, bin') \<Rightarrow>
          if unat sz > length bin' then Inl invalid_string_size
          else (case read_bin bin' (unat sz) of
                  Inl e \<Rightarrow> Inl e
                | Inr (bs, bin'') \<Rightarrow> Inr (map char_of_byte bs, bin'')))"


section \<open>The native object codec: \<^verbatim>\<open>bin_to_native\<close>\<close>

text \<open>
  \<^verbatim>\<open>bin_to_native\<close> is a family of overloads selected by the static C++ type of the
  object: arithmetic types, \<^verbatim>\<open>std::string\<close>, \<^verbatim>\<open>name\<close>, classes with a
  \<^verbatim>\<open>for_each_field\<close> list, \<^verbatim>\<open>std::vector<T>\<close> and \<^verbatim>\<open>std::pair<First, Second>\<close>.
  \<open>native_type\<close> is that static type, and \<^verbatim>\<open>native_serializer_for<T>\<close> is dispatch on it.

  The decoders write through pointers into the object being built. The model addresses
  a sub-object by its access path from the root object (field index, element index,
  0 and 1 for \<^verbatim>\<open>first\<close> and \<^verbatim>\<open>second\<close>) and keeps a memory from paths to the cells the
  decoders have written: the bytes copied into an arithmetic object, the contents of a
  string, the current size of a vector.
\<close>

datatype native_type =
    arithmetic nat                            \<comment> \<open>\<^verbatim>\<open>std::is_arithmetic_v<T>\<close>, with \<^verbatim>\<open>sizeof(T)\<close>\<close>
  | std_string
  | name_type                                 \<comment> \<open>\<^verbatim>\<open>abieos::name\<close>\<close>
  | class_type "(string \<times> native_type) list"  \<comment> \<open>the \<^verbatim>\<open>for_each_field\<close> list\<close>
  | std_vector native_type
  | std_pair native_type native_type

type_synonym path = "nat list"

datatype cell = arith_cell "byte list" | string_cell string | vector_cell nat

type_synonym object_memory = "path \<Rightarrow> cell option"

record native_stack_entry =
  n_obj :: path
  n_ser :: native_type
  n_position :: int
  n_array_size :: int

record bin_to_native_state =
  n_bin :: input_buffer
  n_stack :: "native_stack_entry list"
  n_mem :: object_memory

definition max_stack_size :: nat where
  "max_stack_size = 128"

definition native_push :: "path \<Rightarrow> native_type \<Rightarrow> bin_to_native_state \<Rightarrow> bin_to_native_state" where
  "native_push p t state =
     state\<lparr>n_stack := n_stack state @
        [\<lparr>n_obj = p, n_ser = t, n_position = 0, n_array_size = 0\<rparr>]\<rparr>"

definition vector_size :: "object_memory \<Rightarrow> path \<Rightarrow> nat" where
  "vector_size m p = (case m p of Some (vector_cell n) \<Rightarrow> n | _ \<Rightarrow> 0)"

text \<open>
  \<open>bin_to_native t p state start\<close> is \<^verbatim>\<open>bin_to_native(obj, state, start)\<close> for an object
  of static type \<open>t\<close> at \<open>p\<close>. All overloads return \<^verbatim>\<open>true\<close> or throw. In the overload
  for \<^verbatim>\<open>std::pair\<close> both components are passed to \<^verbatim>\<open>native_serializer_for<First>\<close>, the
  second one as \<^verbatim>\<open>&obj.second\<close>.
\<close>

function bin_to_native ::
  "native_type \<Rightarrow> path \<Rightarrow> bin_to_native_state \<Rightarrow> bool \<Rightarrow> error + bin_to_native_state" where
  "bin_to_native (arithmetic n) p state start =
     (case read_bin (n_bin state) n of
        Inl e \<Rightarrow> Inl e
      | Inr (bs, rest) \<Rightarrow> Inr (state\<lparr>n_bin := rest, n_mem := (n_mem state)(p \<mapsto> arith_cell bs)\<rparr>))"
| "bin_to_native name_type p state start = bin_to_native (arithmetic 8) (p @ [0]) state start"
| "bin_to_native std_string p state start =
     (case read_varuint32 (n_bin state) of
        Inl e \<Rightarrow> Inl e
      | Inr (sz, rest) \<Rightarrow>
          if unat sz \<ge> length rest then Inl invalid_string_size
          else (case read_bin rest (unat sz) of
                  Inl e \<Rightarrow> Inl e
                | Inr (bs, rest') \<Rightarrow>
                    Inr (state\<lparr>n_bin := rest',
                               n_mem := (n_mem state)(p \<mapsto> string_cell (map char_of_byte bs))\<rparr>)))"
| "bin_to_native (class_type flds) p state start =
     (if start then Inr (native_push p (class_type flds) state)
      else (case rev (n_stack state) of
              [] \<Rightarrow> Inl undefined_behavior
            | stack_entry # below \<Rightarrow>
                if n_position stack_entry < int (length flds) then
                  (if n_position stack_entry < 0 then Inl undefined_behavior
                   else
                     let i = nat (n_position stack_entry);
                         field_ser = flds ! i;
                         state' = state\<lparr>n_stack := rev below @
                                    [stack_entry\<lparr>n_position := n_position stack_entry + 1\<rparr>]\<rparr>
                     in bin_to_native (snd field_ser) (p @ [i]) state' True)
                else Inr (state\<lparr>n_stack := rev below\<rparr>)))"
| "bin_to_native (std_vector t) p state start =
     (if start then
        (case read_varuint32 (n_bin state) of
           Inl e \<Rightarrow> Inl e
         | Inr (sz, rest) \<Rightarrow>
             Inr (state\<lparr>n_bin := rest,
                        n_mem := (n_mem state)(p \<mapsto> vector_cell 0),
                        n_stack := n_stack state @
                          [\<lparr>n_obj = p, n_ser = std_vector t, n_position = 0,
                            n_array_size = sint sz\<rparr>]\<rparr>))
      else (case rev (n_stack state) of
              [] \<Rightarrow> Inl undefined_behavior
            | stack_entry # below \<Rightarrow>
                if n_position stack_entry < n_array_size stack_entry then
                  (let k = vector_size (n_mem state) p;
                       state' = state\<lparr>n_mem := (n_mem state)(p \<mapsto> vector_cell (Suc k)),
                                      n_stack := rev below @
                                        [stack_entry\<lparr>n_position := int (Suc k)\<rparr>]\<rparr>
                   in bin_to_native t (p @ [k]) state' True)
                else Inr (state\<lparr>n_stack := rev below\<rparr>)))"
| "bin_to_native (std_pair first second) p state start =
     (if start then Inr (native_push p (std_pair first second) state)
      else (case rev (n_stack state) of
              [] \<Rightarrow> Inl undefined_behavior
            | stack_entry # below \<Rightarrow>
                let state' = state\<lparr>n_stack := rev below @
                               [stack_entry\<lparr>n_position := n_position stack_entry + 1\<rparr>]\<rparr>
                in if n_position stack_entry = 0 then bin_to_native first (p @ [0]) state' True
                   else if n_position stack_entry = 1 then bin_to_native first (p @ [1]) state' True
                   else Inr (state\<lparr>n_stack := rev below\<rparr>)))"
  by pat_completeness auto
termination
  by (relation "measure (\<lambda>(t, p, state, start).
        (if start then 0 else 2) + (if t = name_type then 1 else 0))") auto




section \<open>Domain scalars: name, symbol code, symbol, asset\<close>

definition char_code :: "char \<Rightarrow> nat" where
  "char_code c = of_char c"

definition char_in :: "char \<Rightarrow> char \<Rightarrow> char \<Rightarrow> bool" where
  \<comment> \<open>\<^verbatim>\<open>c >= lo && c <= hi\<close> for ASCII bounds \<open>lo\<close>, \<open>hi\<close>\<close>
  "char_in c lo hi \<longleftrightarrow> char_code lo \<le> char_code c \<and> char_code c \<le> char_code hi"

definition char_to_symbol :: "char \<Rightarrow> 64 word" where
  "char_to_symbol c =
     (if char_in c (CHR ''a'') (CHR ''z'') then word_of_nat (char_code c - char_code (CHR ''a'')) + 6
      else if char_in c (CHR ''1'') (CHR ''5'') then word_of_nat (char_code c - char_code (CHR ''1'')) + 1
      else 0)"

text \<open>
  \<^verbatim>\<open>string_to_name(const char* str)\<close>: the \<^verbatim>\<open>for\<close> loop over at most 12 characters, 5 bits
  each from the top of the word, then 4 bits of \<^verbatim>\<open>str[12]\<close> when the loop ran 12 times.
  \<open>str\<close> is the C string without its terminating NUL.
\<close>

function string_to_name_loop :: "string \<Rightarrow> nat \<Rightarrow> 64 word \<Rightarrow> nat \<times> 64 word" where
  "string_to_name_loop str i name =
     (if c_at str i \<noteq> CHR 0x00 \<and> i < 12
      then string_to_name_loop str (i + 1)
             (name OR push_bit (64 - 5 * (i + 1)) (char_to_symbol (c_at str i) AND 0x1f))
      else (i, name))"
  by pat_completeness auto
termination
  by (relation "measure (\<lambda>(str, i, name). 12 - i)") auto

declare string_to_name_loop.simps [simp del]

definition string_to_name :: "string \<Rightarrow> 64 word" where
  "string_to_name str =
     (case string_to_name_loop str 0 0 of
        (i, name) \<Rightarrow> if i = 12 then name OR (char_to_symbol (c_at str 12) AND 0x0F) else name)"

definition charmap :: string where
  "charmap = ''.12345abcdefghijklmnopqrstuvwxyz''"

text \<open>\<^verbatim>\<open>str.find_last_not_of(c)\<close>: the last index holding another character, or \<^verbatim>\<open>npos\<close>.\<close>

definition find_last_not_of :: "string \<Rightarrow> char \<Rightarrow> nat option" where
  "find_last_not_of str c =
     (case dropWhile (\<lambda>x. x = c) (rev str) of
        [] \<Rightarrow> None
      | x # xs \<Rightarrow> Some (length xs))"

function name_to_string_loop :: "nat \<Rightarrow> 64 word \<Rightarrow> string \<Rightarrow> string" where
  "name_to_string_loop i tmp str =
     (if i \<le> 12
      then (let c = charmap ! unat (tmp AND (if i = 0 then 0x0f else 0x1f))
            in name_to_string_loop (i + 1) (drop_bit (if i = 0 then 4 else 5) tmp)
                 (str[12 - i := c]))
      else str)"
  by pat_completeness auto
termination
  by (relation "measure (\<lambda>(i, tmp, str). 13 - i)") auto

declare name_to_string_loop.simps [simp del]

definition name_to_string :: "64 word \<Rightarrow> string" where
  "name_to_string name =
     (let str = name_to_string_loop 0 name (replicate 13 (CHR ''.''))
      in case find_last_not_of str (CHR ''.'') of
           None \<Rightarrow> str
         | Some l \<Rightarrow> take (l + 1) str)"

text \<open>
  \<^verbatim>\<open>string_to_symbol_code\<close>: skip blanks, then pack the run of upper-case letters, 8 bits
  each from the bottom of the word. From the ninth letter on the shift count \<^verbatim>\<open>8 * i\<close> is
  64 or more, which C++ leaves undefined for a 64-bit operand; the shift instruction of
  the compiled code takes the count modulo 64, and so does the model.
\<close>

fun string_to_symbol_code_loop :: "string \<Rightarrow> nat \<Rightarrow> 64 word \<Rightarrow> 64 word" where
  "string_to_symbol_code_loop [] i result = result"
| "string_to_symbol_code_loop (c # str) i result =
     (if char_in c (CHR ''A'') (CHR ''Z'')
      then string_to_symbol_code_loop str (i + 1)
             (result OR push_bit ((8 * i) mod 64) (word_of_nat (char_code c)))
      else result)"

definition string_to_symbol_code :: "string \<Rightarrow> 64 word" where
  "string_to_symbol_code str =
     string_to_symbol_code_loop (dropWhile (\<lambda>c. c = CHR '' '') str) 0 0"

function symbol_code_to_string :: "64 word \<Rightarrow> string" where
  "symbol_code_to_string v =
     (if v > 0 then char_of_byte (ucast (v AND 0xFF)) # symbol_code_to_string (drop_bit 8 v)
      else [])"
  by pat_completeness auto
termination
proof (relation "measure unat")
  show "wf (measure (unat :: 64 word \<Rightarrow> nat))" by simp
next
  fix v :: "64 word"
  assume "0 < v"
  then have nz: "unat v \<noteq> 0" by (simp add: unat_eq_0 word_greater_zero_iff)
  have "unat (drop_bit 8 v) = drop_bit 8 (unat v)"
    by (rule unat_drop_bit_eq)
  also have "\<dots> = unat v div 2 ^ 8"
    by (rule drop_bit_eq_div)
  finally have "unat (drop_bit 8 v) = unat v div 2 ^ 8" .
  with nz have "unat (drop_bit 8 v) < unat v" by simp
  then show "(drop_bit 8 v, v) \<in> measure unat" by simp
qed

declare symbol_code_to_string.simps [simp del]

text \<open>
  \<^verbatim>\<open>string_to_asset\<close>. The C string is consumed from the front; \<open>amount\<close> is a
  \<^verbatim>\<open>uint64_t\<close> and \<open>precision\<close> a \<^verbatim>\<open>uint8_t\<close>, both wrapping ("todo: check overflow").
\<close>

record asset =
  amount :: "64 word"    \<comment> \<open>the bits of the \<^verbatim>\<open>int64_t\<close>\<close>
  sym :: "64 word"       \<comment> \<open>\<^verbatim>\<open>symbol::value\<close>\<close>

fun asset_digits :: "string \<Rightarrow> 64 word \<Rightarrow> byte \<Rightarrow> 64 word \<times> byte \<times> string" where
  \<comment> \<open>\<^verbatim>\<open>while (*s >= '0' && *s <= '9') { amount = amount * 10 + (*s++ - '0'); ++count; }\<close>\<close>
  "asset_digits [] amt count = (amt, count, [])"
| "asset_digits (c # s) amt count =
     (if char_in c (CHR ''0'') (CHR ''9'')
      then asset_digits s (amt * 10 + word_of_nat (char_code c - char_code (CHR ''0''))) (count + 1)
      else (amt, count, c # s))"

definition string_to_asset :: "string \<Rightarrow> asset" where
  "string_to_asset s0 =
     (let s1 = dropWhile (\<lambda>c. c = CHR '' '') s0;
          negative = (s1 \<noteq> [] \<and> hd s1 = CHR ''-'');
          s2 = (if negative then tl s1 else s1);
          (amount1, _, s3) = asset_digits s2 0 0;
          (amount2, precision, s4) =
             (if s3 \<noteq> [] \<and> hd s3 = CHR ''.'' then asset_digits (tl s3) amount1 0
              else (amount1, 0, s3));
          amount3 = (if negative then - amount2 else amount2);
          code = string_to_symbol_code s4
      in \<lparr>amount = amount3, sym = push_bit 8 code OR ucast precision\<rparr>)"


section \<open>ABI types and schema resolution\<close>

text \<open>
  \<^verbatim>\<open>for_each_abi_type\<close> names the built-in types and their serializers
  \<^verbatim>\<open>abi_serializer_for<T>\<close>; the three pseudo serializers handle optionals, structs
  and arrays.
\<close>

datatype abi_serializer =
    ser_bool | ser_int8 | ser_uint8 | ser_int16 | ser_uint16 | ser_int32 | ser_uint32
  | ser_int64 | ser_uint64 | ser_int128 | ser_uint128 | ser_varuint32 | ser_varint32
  | ser_float32 | ser_float64 | ser_float128 | ser_time_point | ser_time_point_sec
  | ser_block_timestamp | ser_name | ser_bytes | ser_string | ser_checksum160
  | ser_checksum256 | ser_checksum512 | ser_public_key | ser_private_key | ser_signature
  | ser_symbol | ser_symbol_code | ser_asset
  | pseudo_optional | pseudo_object | pseudo_array

definition for_each_abi_type :: "(string \<times> abi_serializer) list" where
  "for_each_abi_type =
     [(''bool'', ser_bool), (''int8'', ser_int8), (''uint8'', ser_uint8),
      (''int16'', ser_int16), (''uint16'', ser_uint16), (''int32'', ser_int32),
      (''uint32'', ser_uint32), (''int64'', ser_int64), (''uint64'', ser_uint64),
      (''int128'', ser_int128), (''uint128'', ser_uint128), (''varuint32'', ser_varuint32),
      (''varint32'', ser_varint32), (''float32'', ser_float32), (''float64'', ser_float64),
      (''float128'', ser_float128), (''time_point'', ser_time_point),
      (''time_point_sec'', ser_time_point_sec), (''block_timestamp_type'', ser_block_timestamp),
      (''name'', ser_name), (''bytes'', ser_bytes), (''string'', ser_string),
      (''checksum160'', ser_checksum160), (''checksum256'', ser_checksum256),
      (''checksum512'', ser_checksum512), (''public_key'', ser_public_key),
      (''private_key'', ser_private_key), (''signature'', ser_signature),
      (''symbol'', ser_symbol), (''symbol_code'', ser_symbol_code), (''asset'', ser_asset)]"

text \<open>
  The schema document. \<^verbatim>\<open>create_contract\<close> reads \<open>types\<close>, \<open>structs\<close> and \<open>actions\<close>;
  the other members of \<^verbatim>\<open>abi_def\<close> (\<open>version\<close>, \<open>tables\<close>, \<open>ricardian_clauses\<close>,
  \<open>error_messages\<close>, \<open>abi_extensions\<close>) play no part in it and are left out.
\<close>

record type_def =
  new_type_name :: string
  td_type :: string

record field_def =
  fd_name :: string
  fd_type :: string

record struct_def =
  sd_name :: string
  sd_base :: string
  sd_fields :: "field_def list"

record action_def =
  ad_name :: "64 word"
  ad_type :: string
  ricardian_contract :: string

record abi_def =
  types :: "type_def list"
  structs :: "struct_def list"
  actions :: "action_def list"

text \<open>
  \<^verbatim>\<open>abi_type\<close>. Its pointers to other \<^verbatim>\<open>abi_type\<close>s point at values of the
  \<^verbatim>\<open>std::map<std::string, abi_type>\<close>, which never move and are never erased; every
  value is stored under its own \<open>name\<close>. The model writes such a pointer as the key of
  the entry pointed at, \<open>None\<close> for \<^verbatim>\<open>nullptr\<close>. \<open>t_struct_def\<close> holds the
  \<^verbatim>\<open>struct_def\<close> pointed at. (The member \<^verbatim>\<open>base\<close> of the source is never written or read.)
\<close>

record abi_field =
  f_name :: string
  f_type :: string

record abi_type =
  t_name :: string
  alias_of_name :: string
  t_struct_def :: "struct_def option"
  alias_of :: "string option"
  optional_of :: "string option"
  array_of :: "string option"
  t_fields :: "abi_field list"
  filled_struct :: bool
  ser :: "abi_serializer option"

definition new_abi_type :: "string \<Rightarrow> abi_type" where
  \<comment> \<open>\<^verbatim>\<open>abi_type{name}\<close>: all other members value-initialised\<close>
  "new_abi_type n =
     \<lparr>t_name = n, alias_of_name = [], t_struct_def = None, alias_of = None, optional_of = None,
      array_of = None, t_fields = [], filled_struct = False, ser = None\<rparr>"

text \<open>
  A \<^verbatim>\<open>std::map\<close> with string keys, as the list of its entries in key order
  (\<^verbatim>\<open>std::string\<close>'s \<^verbatim>\<open>operator<\<close>: lexicographic on the bytes). \<open>map_insert\<close> is
  \<^verbatim>\<open>insert\<close>, which leaves an existing entry alone and reports whether it inserted;
  \<open>map_assign\<close> is \<^verbatim>\<open>m[k] = v\<close>; \<open>map_modify\<close> writes through a reference to an entry.
\<close>

type_synonym 'v string_map = "(string \<times> 'v) list"

fun map_insert :: "string \<Rightarrow> 'v \<Rightarrow> 'v string_map \<Rightarrow> 'v string_map \<times> bool" where
  "map_insert k v [] = ([(k, v)], True)"
| "map_insert k v ((k', v') # m) =
     (if k = k' then ((k', v') # m, False)
      else if k < k' then ((k, v) # (k', v') # m, True)
      else (case map_insert k v m of (m', inserted) \<Rightarrow> ((k', v') # m', inserted)))"

fun map_assign :: "string \<Rightarrow> 'v \<Rightarrow> 'v string_map \<Rightarrow> 'v string_map" where
  "map_assign k v [] = [(k, v)]"
| "map_assign k v ((k', v') # m) =
     (if k = k' then (k, v) # m
      else if k < k' then (k, v) # (k', v') # m
      else (k', v') # map_assign k v m)"

fun map_modify :: "string \<Rightarrow> ('v \<Rightarrow> 'v) \<Rightarrow> 'v string_map \<Rightarrow> 'v string_map" where
  "map_modify k f [] = []"
| "map_modify k f ((k', v') # m) =
     (if k = k' then (k', f v') # m else (k', v') # map_modify k f m)"

type_synonym abi_types = "abi_type string_map"

definition ends_with :: "string \<Rightarrow> string \<Rightarrow> bool" where
  "ends_with s suffix \<longleftrightarrow>
     length s \<ge> length suffix \<and> drop (length s - length suffix) s = suffix"

text \<open>
  \<^verbatim>\<open>get_type\<close> returns a reference to an \<^verbatim>\<open>abi_type\<close> and may add entries to the map
  and set \<^verbatim>\<open>alias_of\<close> pointers in it: the model returns the new map and the key of the
  type referred to.
\<close>

function get_type :: "abi_types \<Rightarrow> string \<Rightarrow> nat \<Rightarrow> error + (abi_types \<times> string)" where
  "get_type abi_types n depth =
     (if depth \<ge> 32 then Inl abi_recursion_limit_reached
      else (case map_of abi_types n of
              None \<Rightarrow>
                if ends_with n ''?'' then
                  (case get_type abi_types (take (length n - 1) n) (depth + 1) of
                     Inl e \<Rightarrow> Inl e
                   | Inr (abi_types', inner) \<Rightarrow>
                       (case map_of abi_types' inner of
                          None \<Rightarrow> Inl undefined_behavior
                        | Some inner_type \<Rightarrow>
                            if optional_of inner_type \<noteq> None \<or> array_of inner_type \<noteq> None
                            then Inl no_nesting
                            else Inr (map_assign n
                                        ((new_abi_type n)\<lparr>optional_of := Some inner,
                                                          ser := Some pseudo_optional\<rparr>)
                                        abi_types', n)))
                else if ends_with n ''[]'' then
                  (case get_type abi_types (take (length n - 2) n) (depth + 1) of
                     Inl e \<Rightarrow> Inl e
                   | Inr (abi_types', inner) \<Rightarrow>
                       (case map_of abi_types' inner of
                          None \<Rightarrow> Inl undefined_behavior
                        | Some inner_type \<Rightarrow>
                            if array_of inner_type \<noteq> None \<or> optional_of inner_type \<noteq> None
                            then Inl no_nesting
                            else Inr (map_assign n
                                        ((new_abi_type n)\<lparr>array_of := Some inner,
                                                          ser := Some pseudo_array\<rparr>)
                                        abi_types', n)))
                else Inl (unknown_type n)
            | Some t \<Rightarrow>
                (case alias_of t of
                   Some a \<Rightarrow> Inr (abi_types, a)
                 | None \<Rightarrow>
                     if alias_of_name t = [] then Inr (abi_types, n)
                     else (case get_type abi_types (alias_of_name t) (depth + 1) of
                             Inl e \<Rightarrow> Inl e
                           | Inr (abi_types', other) \<Rightarrow>
                               Inr (map_modify n (\<lambda>t. t\<lparr>alias_of := Some other\<rparr>) abi_types',
                                    other)))))"
  by pat_completeness auto
termination
  by (relation "measure (\<lambda>(abi_types, n, depth). 32 - depth)") auto

declare get_type.simps [simp del]

text \<open>
  \<^verbatim>\<open>fill_struct\<close>, with the loop over the struct's own fields as \<open>fill_fields\<close>. The
  struct being filled is referred to by its key.
\<close>

fun fill_fields ::
  "abi_types \<Rightarrow> string \<Rightarrow> field_def list \<Rightarrow> nat \<Rightarrow> error + abi_types" where
  "fill_fields abi_types k [] depth = Inr abi_types"
| "fill_fields abi_types k (field # rest) depth =
     (case get_type abi_types (fd_type field) (depth + 1) of
        Inl e \<Rightarrow> Inl e
      | Inr (abi_types', ft) \<Rightarrow>
          fill_fields
            (map_modify k (\<lambda>t. t\<lparr>t_fields := t_fields t @ [\<lparr>f_name = fd_name field, f_type = ft\<rparr>]\<rparr>)
               abi_types')
            k rest depth)"

function fill_struct :: "abi_types \<Rightarrow> string \<Rightarrow> nat \<Rightarrow> error + (abi_types \<times> string)" where
  "fill_struct abi_types k depth =
     (if depth \<ge> 32 then Inl abi_recursion_limit_reached
      else (case map_of abi_types k of
              None \<Rightarrow> Inl undefined_behavior
            | Some type \<Rightarrow>
                if filled_struct type then Inr (abi_types, k)
                else (case t_struct_def type of
                        None \<Rightarrow> Inl (not_a_struct (t_name type))
                      | Some sd \<Rightarrow>
                          (case (if sd_base sd \<noteq> [] then
                                   (case get_type abi_types (sd_base sd) (depth + 1) of
                                      Inl e \<Rightarrow> Inl e
                                    | Inr (m1, b) \<Rightarrow>
                                        (case fill_struct m1 b (depth + 1) of
                                           Inl e \<Rightarrow> Inl e
                                         | Inr (m2, b') \<Rightarrow>
                                             (case map_of m2 b' of
                                                None \<Rightarrow> Inl undefined_behavior
                                              | Some base_type \<Rightarrow>
                                                  Inr (map_modify k
                                                         (\<lambda>t. t\<lparr>t_fields := t_fields base_type\<rparr>) m2))))
                                 else Inr abi_types) of
                             Inl e \<Rightarrow> Inl e
                           | Inr m3 \<Rightarrow>
                               (case fill_fields m3 k (sd_fields sd) depth of
                                  Inl e \<Rightarrow> Inl e
                                | Inr m4 \<Rightarrow>
                                    Inr (map_modify k (\<lambda>t. t\<lparr>filled_struct := True\<rparr>) m4, k))))))"
  by pat_completeness auto
termination
  by (relation "measure (\<lambda>(abi_types, k, depth). 32 - depth)") auto

declare fill_struct.simps [simp del]

text \<open>
  \<^verbatim>\<open>contract\<close> and \<^verbatim>\<open>create_contract\<close>. The three final loops of the source run over
  the entries of \<^verbatim>\<open>c.abi_types\<close> in key order while \<^verbatim>\<open>get_type\<close> may add entries. An
  entry added there is a synthetic optional or array type, with no \<^verbatim>\<open>alias_of_name\<close>
  and no \<^verbatim>\<open>struct_def\<close>, for which the body of each loop does nothing; so the model
  visits the keys that are present when a loop starts, in key order.
\<close>

record contract =
  action_types :: "(64 word \<times> string) list"   \<comment> \<open>a \<^verbatim>\<open>std::map<name, std::string>\<close>, as an association list\<close>
  c_abi_types :: abi_types

fun insert_builtins :: "(string \<times> abi_serializer) list \<Rightarrow> abi_types \<Rightarrow> abi_types" where
  "insert_builtins [] m = m"
| "insert_builtins ((n, s) # rest) m =
     insert_builtins rest (fst (map_insert n ((new_abi_type n)\<lparr>ser := Some s\<rparr>) m))"

fun insert_types :: "type_def list \<Rightarrow> abi_types \<Rightarrow> error + abi_types" where
  "insert_types [] m = Inr m"
| "insert_types (t # rest) m =
     (if new_type_name t = [] then Inl missing_type_name
      else (case map_insert (new_type_name t)
                   ((new_abi_type (new_type_name t))\<lparr>alias_of_name := td_type t\<rparr>) m of
              (m', inserted) \<Rightarrow>
                if \<not> inserted then Inl (redefines_type (new_type_name t))
                else insert_types rest m'))"

fun insert_structs :: "struct_def list \<Rightarrow> abi_types \<Rightarrow> error + abi_types" where
  "insert_structs [] m = Inr m"
| "insert_structs (s # rest) m =
     (if sd_name s = [] then Inl missing_struct_name
      else (case map_insert (sd_name s)
                   ((new_abi_type (sd_name s))\<lparr>t_struct_def := Some s, ser := Some pseudo_object\<rparr>) m of
              (m', inserted) \<Rightarrow>
                if \<not> inserted then Inl (redefines_type (sd_name s))
                else insert_structs rest m'))"

fun resolve_aliases :: "string list \<Rightarrow> abi_types \<Rightarrow> error + abi_types" where
  \<comment> \<open>\<^verbatim>\<open>if (!t.alias_of_name.empty()) t.alias_of = &get_type(c.abi_types, t.alias_of_name, 0);\<close>\<close>
  "resolve_aliases [] m = Inr m"
| "resolve_aliases (k # ks) m =
     (case map_of m k of
        None \<Rightarrow> Inl undefined_behavior
      | Some t \<Rightarrow>
          if alias_of_name t \<noteq> [] then
            (case get_type m (alias_of_name t) 0 of
               Inl e \<Rightarrow> Inl e
             | Inr (m', other) \<Rightarrow>
                 resolve_aliases ks (map_modify k (\<lambda>t. t\<lparr>alias_of := Some other\<rparr>) m'))
          else resolve_aliases ks m)"

fun fill_structs :: "string list \<Rightarrow> abi_types \<Rightarrow> error + abi_types" where
  \<comment> \<open>\<^verbatim>\<open>if (t.struct_def) fill_struct(c.abi_types, t, 0);\<close>\<close>
  "fill_structs [] m = Inr m"
| "fill_structs (k # ks) m =
     (case map_of m k of
        None \<Rightarrow> Inl undefined_behavior
      | Some t \<Rightarrow>
          if t_struct_def t \<noteq> None then
            (case fill_struct m k 0 of
               Inl e \<Rightarrow> Inl e
             | Inr (m', _) \<Rightarrow> fill_structs ks m')
          else fill_structs ks m)"

definition extended_asset_type :: "abi_types \<Rightarrow> error + (abi_types \<times> abi_type)" where
  "extended_asset_type m =
     (case get_type m ''asset'' 0 of
        Inl e \<Rightarrow> Inl e
      | Inr (m1, quantity) \<Rightarrow>
          (case get_type m1 ''name'' 0 of
             Inl e \<Rightarrow> Inl e
           | Inr (m2, contract) \<Rightarrow>
               Inr (m2, (new_abi_type ''extended_asset'')
                      \<lparr>t_fields := [\<lparr>f_name = ''quantity'', f_type = quantity\<rparr>,
                                    \<lparr>f_name = ''contract'', f_type = contract\<rparr>],
                       filled_struct := True, ser := Some pseudo_object\<rparr>)))"

text \<open>
  \<open>declared_types\<close> is the first part of \<^verbatim>\<open>create_contract\<close>: the map \<^verbatim>\<open>c.abi_types\<close>
  after the built-in types, \<^verbatim>\<open>extended_asset\<close>, and the loops over \<^verbatim>\<open>abi.types\<close> and
  \<^verbatim>\<open>abi.structs\<close>, before any alias is resolved. \<open>create_contract\<close> goes on from there
  with the three loops over \<^verbatim>\<open>c.abi_types\<close>.
\<close>

definition declared_types :: "abi_def \<Rightarrow> error + abi_types" where
  "declared_types abi =
     (let m0 = insert_builtins for_each_abi_type []
      in case extended_asset_type m0 of
           Inl e \<Rightarrow> Inl e
         | Inr (m0', ea) \<Rightarrow>
             (case insert_types (types abi) (fst (map_insert ''extended_asset'' ea m0')) of
                Inl e \<Rightarrow> Inl e
              | Inr m1 \<Rightarrow> insert_structs (structs abi) m1))"

definition create_contract :: "abi_def \<Rightarrow> error + contract" where
  "create_contract abi =
     (let action_types = fold (\<lambda>a m. AList.update (ad_name a) (ad_type a) m) (actions abi) []
      in case declared_types abi of
           Inl e \<Rightarrow> Inl e
         | Inr m2 \<Rightarrow>
             (case resolve_aliases (map fst m2) m2 of
                Inl e \<Rightarrow> Inl e
              | Inr m3 \<Rightarrow>
                  (case fill_structs (map fst m3) m3 of
                     Inl e \<Rightarrow> Inl e
                   | Inr m4 \<Rightarrow>
                       Inr \<lparr>action_types = action_types,
                            c_abi_types = map (\<lambda>(k, t). (k, t\<lparr>t_struct_def := None\<rparr>)) m4\<rparr>)))"

text \<open>
  A chain of \<open>n\<close> aliases that are not resolved yet, starting at the type named \<open>k\<close>:
  each has a non-empty \<^verbatim>\<open>alias_of_name\<close>, naming the next one, and a null \<^verbatim>\<open>alias_of\<close>.
\<close>

fun unresolved_chain :: "abi_types \<Rightarrow> string \<Rightarrow> nat \<Rightarrow> bool" where
  "unresolved_chain m k 0 = True"
| "unresolved_chain m k (Suc n) =
     (case map_of m k of
        None \<Rightarrow> False
      | Some t \<Rightarrow> alias_of t = None \<and> alias_of_name t \<noteq> [] \<and> unresolved_chain m (alias_of_name t) n)"

text \<open>
  The first key of \<open>ks\<close> at which the loop \<open>resolve_aliases ks m\<close> calls \<^verbatim>\<open>get_type\<close>: the
  first one whose entry has a non-empty \<^verbatim>\<open>alias_of_name\<close>.
\<close>

fun first_alias :: "abi_types \<Rightarrow> string list \<Rightarrow> string option" where
  "first_alias m [] = None"
| "first_alias m (k # ks) =
     (case map_of m k of
        None \<Rightarrow> None
      | Some t \<Rightarrow> if alias_of_name t \<noteq> [] then Some k else first_alias m ks)"

section \<open>Example schemas: a chain of 33 aliases\<close>

text \<open>
  Two schemas with the same chain of 33 type aliases ending in \<open>uint8\<close>. In
  \<open>alias_chain_head_first\<close> each alias names the next one (\<open>a01\<close> is an alias of \<open>a02\<close>,
  ..., \<open>a33\<close> of \<open>uint8\<close>), so that the head of the chain comes first in key order. In
  \<open>alias_chain_tail_first\<close> each alias names the one before (\<open>a33\<close> is an alias of
  \<open>a32\<close>, ..., \<open>a01\<close> of \<open>uint8\<close>), so that the end of the chain comes first.
\<close>

definition alias_chain_names :: "string list" where
  "alias_chain_names =
     [''a01'', ''a02'', ''a03'', ''a04'', ''a05'', ''a06'', ''a07'', ''a08'', ''a09'', ''a10'',
      ''a11'', ''a12'', ''a13'', ''a14'', ''a15'', ''a16'', ''a17'', ''a18'', ''a19'', ''a20'',
      ''a21'', ''a22'', ''a23'', ''a24'', ''a25'', ''a26'', ''a27'', ''a28'', ''a29'', ''a30'',
      ''a31'', ''a32'', ''a33'']"

definition alias_chain_head_first :: abi_def where
  "alias_chain_head_first =
     \<lparr>types = map (\<lambda>(a, b). \<lparr>new_type_name = a, td_type = b\<rparr>)
                (zip alias_chain_names (tl alias_chain_names @ [''uint8''])),
      structs = [], actions = []\<rparr>"

definition alias_chain_tail_first :: abi_def where
  "alias_chain_tail_first =
     \<lparr>types = map (\<lambda>(a, b). \<lparr>new_type_name = a, td_type = b\<rparr>)
                (zip alias_chain_names (''uint8'' # alias_chain_names)),
      structs = [], actions = []\<rparr>"

definition alias_chain_unresolved :: abi_types where
  \<comment> \<open>the map of \<^verbatim>\<open>create_contract\<close> for \<open>alias_chain_head_first\<close> before its final loops\<close>
  "alias_chain_unresolved =
     (case declared_types alias_chain_head_first of Inl e \<Rightarrow> [] | Inr m \<Rightarrow> m)"

section \<open>Stream events\<close>

datatype event_type =
    received_null
  | received_bool
  | received_string
  | received_start_object
  | received_key
  | received_end_object
  | received_start_array
  | received_end_array

text \<open>
  \<^verbatim>\<open>event_data\<close>. Its numeric members are never written (the handlers \<^verbatim>\<open>Int\<close>, \<^verbatim>\<open>Uint\<close>,
  \<^verbatim>\<open>Int64\<close>, \<^verbatim>\<open>Uint64\<close> and \<^verbatim>\<open>Double\<close> return \<^verbatim>\<open>false\<close>, and the reader is run with
  \<^verbatim>\<open>kParseNumbersAsStringsFlag\<close>) and are left out.
\<close>

record event_data =
  value_bool :: bool
  value_string :: string
  key :: string

text \<open>
  What the JSON reader (rapidjson) calls on its handler for a well-formed document: the
  document as a tree, and the sequence of calls made for it. A number arrives through
  \<^verbatim>\<open>RawNumber\<close>, which forwards to \<^verbatim>\<open>String\<close>.
\<close>

datatype json =
    json_null
  | json_bool bool
  | json_number string
  | json_string string
  | json_object "(string \<times> json) list"
  | json_array "json list"

datatype reader_call =
    Null | Bool bool | String string | StartObject | Key string | EndObject
  | StartArray | EndArray

fun reader_calls :: "json \<Rightarrow> reader_call list"
  and member_calls :: "(string \<times> json) list \<Rightarrow> reader_call list"
  and element_calls :: "json list \<Rightarrow> reader_call list" where
  "reader_calls json_null = [Null]"
| "reader_calls (json_bool b) = [Bool b]"
| "reader_calls (json_number s) = [String s]"
| "reader_calls (json_string s) = [String s]"
| "reader_calls (json_object kvs) = StartObject # member_calls kvs @ [EndObject]"
| "reader_calls (json_array vs) = StartArray # element_calls vs @ [EndArray]"
| "member_calls [] = []"
| "member_calls (kv # kvs) = Key (fst kv) # reader_calls (snd kv) @ member_calls kvs"
| "element_calls [] = []"
| "element_calls (v # vs) = reader_calls v @ element_calls vs"

section \<open>Helpers outside this file\<close>

text \<open>
  The codecs of floating-point numbers, of timestamps, of keys and signatures and of
  128-bit integers call the C++ library, Boost and \<^verbatim>\<open>abieos_numeric.hpp\<close>. These are
  parameters of the model: \<open>None\<close> stands for an exception thrown by the helper.
\<close>

record externals =
  stof :: "string \<Rightarrow> byte list option"                  \<comment> \<open>the 4 bytes of \<^verbatim>\<open>std::stof(s)\<close>\<close>
  stod :: "string \<Rightarrow> byte list option"                  \<comment> \<open>the 8 bytes of \<^verbatim>\<open>std::stod(s)\<close>\<close>
  parse_time_point_sec :: "string \<Rightarrow> 32 word option"    \<comment> \<open>\<^verbatim>\<open>time_point_sec{s}.utc_seconds\<close>\<close>
  string_to_public_key :: "string \<Rightarrow> byte list option"
  string_to_private_key :: "string \<Rightarrow> byte list option"
  string_to_signature :: "string \<Rightarrow> byte list option"
  to_iso_extended_string :: "64 word \<Rightarrow> string"         \<comment> \<open>of \<^verbatim>\<open>from_time_t(t)\<close>\<close>
  sizeof_public_key :: nat
  sizeof_private_key :: nat
  sizeof_signature :: nat
  public_key_to_string :: "byte list \<Rightarrow> string option"
  private_key_to_string :: "byte list \<Rightarrow> string option"
  signature_to_string :: "byte list \<Rightarrow> string option"
  decimal_to_binary :: "string \<Rightarrow> byte list option"     \<comment> \<open>\<^verbatim>\<open>decimal_to_binary<16>(s)\<close>, a \<^verbatim>\<open>std::array<uint8_t, 16>\<close>\<close>
  binary_to_decimal :: "byte list \<Rightarrow> string"
  negate :: "byte list \<Rightarrow> byte list"
  is_negative :: "byte list \<Rightarrow> bool"

text \<open>
  \<^verbatim>\<open>std::stoll\<close> and \<^verbatim>\<open>std::stoull\<close> in base 10: leading white space, an optional
  sign, then digits up to the first other character; an exception when there is no
  digit or the value is out of range.
\<close>

definition is_space :: "char \<Rightarrow> bool" where
  "is_space c \<longleftrightarrow> char_code c = 32 \<or> (9 \<le> char_code c \<and> char_code c \<le> 13)"

definition digits_value :: "string \<Rightarrow> nat" where
  "digits_value ds = foldl (\<lambda>acc c. acc * 10 + (char_code c - char_code (CHR ''0''))) 0 ds"

definition strto :: "string \<Rightarrow> (bool \<times> nat) option" where
  "strto s =
     (let s1 = dropWhile is_space (c_str s);
          negative = (s1 \<noteq> [] \<and> hd s1 = CHR ''-'');
          s2 = (if s1 \<noteq> [] \<and> (hd s1 = CHR ''-'' \<or> hd s1 = CHR ''+'') then tl s1 else s1);
          ds = takeWhile (\<lambda>c. char_in c (CHR ''0'') (CHR ''9'')) s2
      in if ds = [] then None else Some (negative, digits_value ds))"

definition stoll :: "string \<Rightarrow> int option" where
  "stoll s =
     (case strto s of
        None \<Rightarrow> None
      | Some (negative, n) \<Rightarrow>
          let v = (if negative then - int n else int n)
          in if - (2 ^ 63) \<le> v \<and> v < 2 ^ 63 then Some v else None)"

definition stoull :: "string \<Rightarrow> nat option" where
  "stoull s =
     (case strto s of
        None \<Rightarrow> None
      | Some (negative, n) \<Rightarrow>
          if n < 2 ^ 64 then Some (if negative then (2 ^ 64 - n) mod 2 ^ 64 else n) else None)"

text \<open>
  \<^verbatim>\<open>json_to_number<T>\<close> for an integral \<open>T\<close> of \<open>w\<close> bits (\<open>bool\<close> counts as an unsigned
  type whose values are 0 and 1): the value, as the bytes \<^verbatim>\<open>push_raw\<close> writes for it.
\<close>

definition json_to_number ::
  "bool \<Rightarrow> nat \<Rightarrow> bool \<Rightarrow> event_data \<Rightarrow> event_type \<Rightarrow> error + int" where
  "json_to_number is_signed w is_bool d event =
     (if event = received_bool then Inr (if value_bool d then 1 else 0)
      else if event = received_string then
        (if is_signed then
           (case stoll (value_string d) of
              None \<Rightarrow> Inl bad_number_format
            | Some v \<Rightarrow>
                if - (2 ^ (w - 1)) \<le> v \<and> v < 2 ^ (w - 1) then Inr v else Inl number_out_of_range)
         else if CHR ''-'' \<in> set (value_string d) then Inl expected_non_negative
         else
           (case stoull (value_string d) of
              None \<Rightarrow> Inl bad_number_format
            | Some n \<Rightarrow>
                if (if is_bool then n < 2 else n < 2 ^ w) then Inr (int n)
                else Inl number_out_of_range))
      else Inl expected_number_or_boolean)"

definition int_bytes :: "nat \<Rightarrow> int \<Rightarrow> byte list" where
  \<comment> \<open>the \<open>n\<close> little-endian bytes of a two's-complement integer\<close>
  "int_bytes n v = le_bytes n (nat (v mod 2 ^ (8 * n)))"

definition push_number ::
  "bool \<Rightarrow> nat \<Rightarrow> bool \<Rightarrow> event_data \<Rightarrow> event_type \<Rightarrow> error + byte list" where
  "push_number is_signed w is_bool d event =
     (case json_to_number is_signed w is_bool d event of
        Inl e \<Rightarrow> Inl e
      | Inr v \<Rightarrow> Inr (int_bytes (if is_bool then 1 else w div 8) v))"

definition push_float ::
  "(string \<Rightarrow> byte list option) \<Rightarrow> byte list \<Rightarrow> byte list \<Rightarrow> event_data \<Rightarrow> event_type
     \<Rightarrow> error + byte list" where
  \<comment> \<open>\<^verbatim>\<open>json_to_number<float>\<close> and \<^verbatim>\<open><double>\<close>; \<open>zero\<close> and \<open>one\<close> are the bytes of 0.0 and 1.0\<close>
  "push_float sto zero one d event =
     (if event = received_bool then Inr (if value_bool d then one else zero)
      else if event = received_string then
        (case sto (value_string d) of None \<Rightarrow> Inl external_error | Some bs \<Rightarrow> Inr bs)
      else Inl expected_number_or_boolean)"

text \<open>\<^verbatim>\<open>boost::algorithm::unhex\<close>: pairs of hex digits, either case; \<open>None\<close> when it throws.\<close>

definition hex_digit :: "char \<Rightarrow> nat option" where
  "hex_digit c =
     (if char_in c (CHR ''0'') (CHR ''9'') then Some (char_code c - char_code (CHR ''0''))
      else if char_in c (CHR ''A'') (CHR ''F'') then Some (char_code c - char_code (CHR ''A'') + 10)
      else if char_in c (CHR ''a'') (CHR ''f'') then Some (char_code c - char_code (CHR ''a'') + 10)
      else None)"

fun unhex :: "string \<Rightarrow> byte list option" where
  "unhex [] = Some []"
| "unhex [c] = None"
| "unhex (a # b # rest) =
     (case (hex_digit a, hex_digit b, unhex rest) of
        (Some x, Some y, Some bs) \<Rightarrow> Some (word_of_nat (16 * x + y) # bs)
      | _ \<Rightarrow> None)"

definition from_string ::
  "string \<Rightarrow> (string \<Rightarrow> error + byte list) \<Rightarrow> event_data \<Rightarrow> event_type \<Rightarrow> error + byte list" where
  \<comment> \<open>\<^verbatim>\<open>if (event == event_type::received_string) ... else throw "expected string ..."\<close>\<close>
  "from_string what f d event =
     (if event = received_string then f (value_string d) else Inl (expected_string what))"

definition fixed_binary_from_string :: "nat \<Rightarrow> string \<Rightarrow> error + byte list" where
  "fixed_binary_from_string n s =
     (case unhex s of
        None \<Rightarrow> Inl expected_hex_string
      | Some v \<Rightarrow> if length v \<noteq> n then Inl hex_incorrect_length else Inr v)"

definition bytes_from_string :: "string \<Rightarrow> error + byte list" where
  "bytes_from_string s =
     (if odd (length s) then Inl odd_hex_digits
      else (case unhex s of
              None \<Rightarrow> Inl expected_hex_string
            | Some v \<Rightarrow> Inr (push_varuint32 (word_of_nat (length s div 2)) @ v)))"

definition external_from_string :: "(string \<Rightarrow> byte list option) \<Rightarrow> string \<Rightarrow> error + byte list" where
  "external_from_string f s = (case f s of None \<Rightarrow> Inl external_error | Some bs \<Rightarrow> Inr bs)"

text \<open>
  The constructors \<^verbatim>\<open>time_point(const std::string&)\<close> and
  \<^verbatim>\<open>block_timestamp(time_point)\<close>, in 64-bit unsigned arithmetic.
\<close>

definition time_point_from_string :: "externals \<Rightarrow> string \<Rightarrow> (64 word) option" where
  "time_point_from_string ext s =
     (case parse_time_point_sec ext s of
        None \<Rightarrow> None
      | Some utc_seconds \<Rightarrow>
          (case dropWhile (\<lambda>c. c \<noteq> CHR ''.'') s of
             [] \<Rightarrow> Some (ucast utc_seconds * 1000000)
           | dot # frac \<Rightarrow>
               let ms = CHR ''1'' # frac @ replicate (3 - length frac) (CHR ''0'')
               in (case stoull ms of
                     None \<Rightarrow> None
                   | Some n \<Rightarrow> Some (ucast utc_seconds * 1000000 + (word_of_nat n - 1000) * 1000))))"

definition block_timestamp_slot :: "64 word \<Rightarrow> 32 word" where
  "block_timestamp_slot microseconds = ucast ((microseconds div 1000 - 946684800000) div 500)"

definition push_varint32 :: "32 word \<Rightarrow> byte list" where
  \<comment> \<open>\<^verbatim>\<open>push_varuint32(bin, uint32_t((v << 1) ^ (v >> 31)))\<close>, with an arithmetic right shift\<close>
  "push_varint32 v = push_varuint32 (push_bit 1 v XOR signed_drop_bit 31 v)"

text \<open>
  The bodies of \<^verbatim>\<open>json_to_bin(uint128*, ...)\<close> and \<^verbatim>\<open>json_to_bin(int128*, ...)\<close> for a
  \<^verbatim>\<open>received_string\<close> event. The second strips one leading minus sign, converts,
  negates when the sign was there, and throws "number is out of range" when
  \<^verbatim>\<open>is_negative\<close> of the result differs from \<open>negative\<close>. \<^verbatim>\<open>decimal_to_binary\<close>,
  \<^verbatim>\<open>negate\<close> and \<^verbatim>\<open>is_negative\<close> come from \<^verbatim>\<open>abieos_numeric.hpp\<close>.
\<close>

definition uint128_from_string :: "externals \<Rightarrow> string \<Rightarrow> error + byte list" where
  "uint128_from_string ext s =
     (case decimal_to_binary ext s of None \<Rightarrow> Inl external_error | Some v \<Rightarrow> Inr v)"

definition int128_from_string :: "externals \<Rightarrow> string \<Rightarrow> error + byte list" where
  "int128_from_string ext s0 =
     (let negative = (s0 \<noteq> [] \<and> hd s0 = CHR ''-'');
          s = (if negative then tl s0 else s0)
      in case decimal_to_binary ext s of
           None \<Rightarrow> Inl external_error
         | Some v \<Rightarrow>
             let v' = (if negative then negate ext v else v)
             in if is_negative ext v' \<noteq> negative then Inl number_out_of_range
                else Inr v')"

text \<open>
  The overloads of \<^verbatim>\<open>json_to_bin\<close> for the built-in types: the bytes appended to
  \<^verbatim>\<open>state.bin\<close> for an event, or the exception.
\<close>

definition json_to_bin_builtin ::
  "externals \<Rightarrow> abi_serializer \<Rightarrow> event_data \<Rightarrow> event_type \<Rightarrow> error + byte list" where
  "json_to_bin_builtin ext s d event =
     (case s of
        ser_bool \<Rightarrow> push_number False 8 True d event
      | ser_int8 \<Rightarrow> push_number True 8 False d event
      | ser_uint8 \<Rightarrow> push_number False 8 False d event
      | ser_int16 \<Rightarrow> push_number True 16 False d event
      | ser_uint16 \<Rightarrow> push_number False 16 False d event
      | ser_int32 \<Rightarrow> push_number True 32 False d event
      | ser_uint32 \<Rightarrow> push_number False 32 False d event
      | ser_int64 \<Rightarrow> push_number True 64 False d event
      | ser_uint64 \<Rightarrow> push_number False 64 False d event
      | ser_int128 \<Rightarrow> from_string ''int128'' (int128_from_string ext) d event
      | ser_uint128 \<Rightarrow> from_string ''uint128'' (uint128_from_string ext) d event
      | ser_varuint32 \<Rightarrow>
          (case json_to_number False 32 False d event of
             Inl e \<Rightarrow> Inl e | Inr v \<Rightarrow> Inr (push_varuint32 (word_of_int v)))
      | ser_varint32 \<Rightarrow>
          (case json_to_number True 32 False d event of
             Inl e \<Rightarrow> Inl e | Inr v \<Rightarrow> Inr (push_varint32 (word_of_int v)))
      | ser_float32 \<Rightarrow> push_float (stof ext) [0, 0, 0, 0] [0, 0, 0x80, 0x3f] d event
      | ser_float64 \<Rightarrow>
          push_float (stod ext) [0, 0, 0, 0, 0, 0, 0, 0] [0, 0, 0, 0, 0, 0, 0xf0, 0x3f] d event
      | ser_float128 \<Rightarrow> from_string ''hex'' (fixed_binary_from_string 16) d event
      | ser_time_point \<Rightarrow>
          from_string ''time_point''
            (\<lambda>s. case time_point_from_string ext s of
                    None \<Rightarrow> Inl external_error | Some us \<Rightarrow> Inr (push_raw us)) d event
      | ser_time_point_sec \<Rightarrow>
          from_string ''time_point_sec''
            (\<lambda>s. case parse_time_point_sec ext s of
                    None \<Rightarrow> Inl external_error | Some secs \<Rightarrow> Inr (push_raw secs)) d event
      | ser_block_timestamp \<Rightarrow>
          from_string ''block_timestamp''
            (\<lambda>s. case time_point_from_string ext s of
                    None \<Rightarrow> Inl external_error
                  | Some us \<Rightarrow> Inr (push_raw (block_timestamp_slot us))) d event
      | ser_name \<Rightarrow> from_string ''name'' (\<lambda>s. Inr (push_raw (string_to_name (c_str s)))) d event
      | ser_bytes \<Rightarrow> from_string ''hex digits'' bytes_from_string d event
      | ser_string \<Rightarrow>
          from_string ''''
            (\<lambda>s. Inr (push_varuint32 (word_of_nat (length s)) @ map byte_of_char s)) d event
      | ser_checksum160 \<Rightarrow> from_string ''hex'' (fixed_binary_from_string 20) d event
      | ser_checksum256 \<Rightarrow> from_string ''hex'' (fixed_binary_from_string 32) d event
      | ser_checksum512 \<Rightarrow> from_string ''hex'' (fixed_binary_from_string 64) d event
      | ser_public_key \<Rightarrow>
          from_string ''public_key'' (external_from_string (string_to_public_key ext)) d event
      | ser_private_key \<Rightarrow>
          from_string ''private_key'' (external_from_string (string_to_private_key ext)) d event
      | ser_signature \<Rightarrow>
          from_string ''signature'' (external_from_string (string_to_signature ext)) d event
      | ser_symbol \<Rightarrow>
          from_string ''symbol''
            (\<lambda>s. let str = c_str s;
                      digits = takeWhile (\<lambda>c. char_in c (CHR ''0'') (CHR ''9'')) str;
                      precision = (word_of_nat (digits_value digits) :: byte);
                      rest = drop (length digits) str;
                      rest' = (if rest \<noteq> [] \<and> hd rest = CHR '','' then tl rest else rest)
                  in Inr (push_raw (push_bit 8 (string_to_symbol_code rest') OR ucast precision)))
            d event
      | ser_symbol_code \<Rightarrow>
          from_string ''symbol_code'' (\<lambda>s. Inr (push_raw (string_to_symbol_code (c_str s)))) d event
      | ser_asset \<Rightarrow>
          from_string ''asset''
            (\<lambda>s. let v = string_to_asset (c_str s) in Inr (push_raw (amount v) @ push_raw (sym v)))
            d event
      | _ \<Rightarrow> Inl undefined_behavior)"

section \<open>The JSON to binary engine\<close>

record size_insertion =
  si_position :: nat
  si_size :: "32 word"

record json_to_bin_stack_entry =
  jb_type :: string                  \<comment> \<open>\<^verbatim>\<open>const abi_type*\<close>, as a key\<close>
  jb_position :: int
  size_insertion_index :: nat

record json_to_bin_state =
  received_data :: event_data
  started :: bool
  jb_bin :: "byte list"
  size_insertions :: "size_insertion list"
  jb_stack :: "json_to_bin_stack_entry list"

text \<open>
  \<open>ser_json_to_bin ext m t state event start\<close> is the call
  \<^verbatim>\<open>type->ser && type->ser->json_to_bin(state, type, event, start)\<close> for the type stored
  under \<open>t\<close>: \<^verbatim>\<open>false\<close> for a null \<^verbatim>\<open>ser\<close>, else the overload of \<^verbatim>\<open>json_to_bin\<close> for
  \<^verbatim>\<open>pseudo_optional\<close>, \<^verbatim>\<open>pseudo_object\<close>, \<^verbatim>\<open>pseudo_array\<close> or a built-in type. The
  overloads call each other through \<^verbatim>\<open>ser\<close>; \<open>None\<close> stands for a chain of such calls
  that does not end (optional types that contain each other, which \<^verbatim>\<open>get_type\<close> does
  not build).
\<close>

partial_function (option) ser_json_to_bin ::
  "externals \<Rightarrow> abi_types \<Rightarrow> string \<Rightarrow> json_to_bin_state \<Rightarrow> event_type \<Rightarrow> bool
     \<Rightarrow> (error + json_to_bin_state) option" where
  "ser_json_to_bin ext m t state event start =
     (case map_of m t of
        None \<Rightarrow> Some (Inl undefined_behavior)
      | Some type \<Rightarrow>
          (case ser type of
             None \<Rightarrow> Some (Inl returned_false)
           | Some s \<Rightarrow>
               if s = pseudo_optional then
                 (if event = received_null then Some (Inr (state\<lparr>jb_bin := jb_bin state @ [0]\<rparr>))
                  else (case optional_of type of
                          None \<Rightarrow> Some (Inl undefined_behavior)
                        | Some inner \<Rightarrow>
                            ser_json_to_bin ext m inner (state\<lparr>jb_bin := jb_bin state @ [1]\<rparr>)
                              event True))
               else if s = pseudo_object then
                 (if start then
                    (if event \<noteq> received_start_object then Some (Inl expected_object)
                     else Some (Inr (state\<lparr>jb_stack := jb_stack state @
                             [\<lparr>jb_type = t, jb_position = - 1, size_insertion_index = 0\<rparr>]\<rparr>)))
                  else
                    (case rev (jb_stack state) of
                       [] \<Rightarrow> Some (Inl undefined_behavior)
                     | stack_entry # below \<Rightarrow>
                         if event = received_end_object then
                           (if jb_position stack_entry + 1 \<noteq> int (length (t_fields type)) then
                              (if jb_position stack_entry + 1 < 0 \<or>
                                  jb_position stack_entry + 1 > int (length (t_fields type))
                               then Some (Inl undefined_behavior)
                               else Some (Inl (expected_field
                                      (f_name (t_fields type ! nat (jb_position stack_entry + 1))))))
                            else Some (Inr (state\<lparr>jb_stack := rev below\<rparr>)))
                         else if event = received_key then
                           (if jb_position stack_entry + 1 \<ge> int (length (t_fields type))
                            then Some (Inl (unexpected_field (key (received_data state))))
                            else if jb_position stack_entry + 1 < 0
                            then Some (Inl undefined_behavior)
                            else
                              let field = t_fields type ! nat (jb_position stack_entry + 1)
                              in if key (received_data state) \<noteq> f_name field
                                 then Some (Inl (expected_field (f_name field)))
                                 else Some (Inr (state\<lparr>jb_stack := rev below @
                                        [stack_entry\<lparr>jb_position := jb_position stack_entry + 1\<rparr>]\<rparr>)))
                         else
                           (if jb_position stack_entry < 0 \<or>
                               jb_position stack_entry \<ge> int (length (t_fields type))
                            then Some (Inl undefined_behavior)
                            else ser_json_to_bin ext m
                                   (f_type (t_fields type ! nat (jb_position stack_entry)))
                                   state event True)))
               else if s = pseudo_array then
                 (if start then
                    (if event \<noteq> received_start_array then Some (Inl expected_array)
                     else Some (Inr (state\<lparr>
                             jb_stack := jb_stack state @
                               [\<lparr>jb_type = t, jb_position = - 1,
                                 size_insertion_index = length (size_insertions state)\<rparr>],
                             size_insertions := size_insertions state @
                               [\<lparr>si_position = length (jb_bin state), si_size = 0\<rparr>]\<rparr>)))
                  else
                    (case rev (jb_stack state) of
                       [] \<Rightarrow> Some (Inl undefined_behavior)
                     | stack_entry # below \<Rightarrow>
                         if event = received_end_array then
                           (if size_insertion_index stack_entry \<ge> length (size_insertions state)
                            then Some (Inl undefined_behavior)
                            else Some (Inr (state\<lparr>
                                   size_insertions := (size_insertions state)
                                     [size_insertion_index stack_entry :=
                                        (size_insertions state ! size_insertion_index stack_entry)
                                          \<lparr>si_size := word_of_int (jb_position stack_entry + 1)\<rparr>],
                                   jb_stack := rev below\<rparr>)))
                         else
                           (case array_of type of
                              None \<Rightarrow> Some (Inl undefined_behavior)
                            | Some element \<Rightarrow>
                                ser_json_to_bin ext m element
                                  (state\<lparr>jb_stack := rev below @
                                     [stack_entry\<lparr>jb_position := jb_position stack_entry + 1\<rparr>]\<rparr>)
                                  event True)))
               else
                 (case json_to_bin_builtin ext s (received_data state) event of
                    Inl e \<Rightarrow> Some (Inl e)
                  | Inr bs \<Rightarrow> Some (Inr (state\<lparr>jb_bin := jb_bin state @ bs\<rparr>)))))"

declare ser_json_to_bin.simps [code]

text \<open>\<^verbatim>\<open>receive_event(json_to_bin_state&, event_type, bool start)\<close>.\<close>

definition receive_event ::
  "externals \<Rightarrow> abi_types \<Rightarrow> json_to_bin_state \<Rightarrow> event_type \<Rightarrow> bool
     \<Rightarrow> (error + json_to_bin_state) option" where
  "receive_event ext m state event start =
     (case rev (jb_stack state) of
        [] \<Rightarrow> Some (Inl returned_false)
      | back # below \<Rightarrow>
          let state' = (if start then state\<lparr>jb_stack := []\<rparr> else state)
          in if length (jb_stack state') > max_stack_size then Some (Inl recursion_limit_reached)
             else ser_json_to_bin ext m (jb_type back) state' event start)"

text \<open>
  The handler functions of \<^verbatim>\<open>json_reader_handler\<close>: store the payload in
  \<^verbatim>\<open>received_data\<close>, then \<^verbatim>\<open>receive_event\<close> with \<^verbatim>\<open>get_start()\<close>.
\<close>

definition handler_call ::
  "externals \<Rightarrow> abi_types \<Rightarrow> json_to_bin_state \<Rightarrow> reader_call
     \<Rightarrow> (error + json_to_bin_state) option" where
  "handler_call ext m state call =
     (let d = received_data state;
          (d', event) =
            (case call of
               Null \<Rightarrow> (d, received_null)
             | Bool v \<Rightarrow> (d\<lparr>value_bool := v\<rparr>, received_bool)
             | String v \<Rightarrow> (d\<lparr>value_string := v\<rparr>, received_string)
             | StartObject \<Rightarrow> (d, received_start_object)
             | Key v \<Rightarrow> (d\<lparr>key := v\<rparr>, received_key)
             | EndObject \<Rightarrow> (d, received_end_object)
             | StartArray \<Rightarrow> (d, received_start_array)
             | EndArray \<Rightarrow> (d, received_end_array))
      in receive_event ext m (state\<lparr>received_data := d', started := True\<rparr>) event
           (\<not> started state))"

text \<open>The reader stops at the first handler that throws or returns \<^verbatim>\<open>false\<close>.\<close>

fun handler_calls ::
  "externals \<Rightarrow> abi_types \<Rightarrow> json_to_bin_state \<Rightarrow> reader_call list
     \<Rightarrow> (error + json_to_bin_state) option" where
  "handler_calls ext m state [] = Some (Inr state)"
| "handler_calls ext m state (call # calls) =
     (case handler_call ext m state call of
        None \<Rightarrow> None
      | Some (Inl e) \<Rightarrow> Some (Inl e)
      | Some (Inr state') \<Rightarrow> handler_calls ext m state' calls)"

text \<open>
  The final loop of \<^verbatim>\<open>json_to_bin(bin, type, json)\<close>, which copies \<^verbatim>\<open>state.bin\<close> and puts
  each array's element count in its place.
\<close>

fun insert_sizes :: "byte list \<Rightarrow> size_insertion list \<Rightarrow> nat \<Rightarrow> byte list" where
  "insert_sizes sbin [] pos = drop pos sbin"
| "insert_sizes sbin (insertion # rest) pos =
     take (si_position insertion - pos) (drop pos sbin) @ push_varuint32 (si_size insertion) @
     insert_sizes sbin rest (si_position insertion)"

text \<open>
  \<^verbatim>\<open>json_to_bin(std::vector<char>& bin, const abi_type* type, std::string_view json)\<close>
  for the document \<open>doc\<close>: the bytes appended to \<open>bin\<close>. (The source rethrows an error
  with the path to the failing field in front of its message; the model keeps the
  error.)
\<close>

definition json_to_bin ::
  "externals \<Rightarrow> abi_types \<Rightarrow> string \<Rightarrow> json \<Rightarrow> (error + byte list) option" where
  "json_to_bin ext m t doc =
     (case handler_calls ext m
             \<lparr>received_data = \<lparr>value_bool = False, value_string = [], key = []\<rparr>,
              started = False, jb_bin = [], size_insertions = [],
              jb_stack = [\<lparr>jb_type = t, jb_position = - 1, size_insertion_index = 0\<rparr>]\<rparr>
             (reader_calls doc) of
        None \<Rightarrow> None
      | Some (Inl e) \<Rightarrow> Some (Inl e)
      | Some (Inr state) \<Rightarrow> Some (Inr (insert_sizes (jb_bin state) (size_insertions state) 0)))"


section \<open>The binary to JSON engine\<close>

text \<open>
  What is written to the \<^verbatim>\<open>rapidjson::Writer\<close>: the sequence of its calls. A floating
  point number is kept as the bytes read.
\<close>

datatype writer_call =
    w_Null | w_Bool bool | w_Int64 int | w_Uint64 nat | w_Double "byte list" | w_String string
  | w_StartObject | w_Key string | w_EndObject | w_StartArray | w_EndArray

record bin_to_json_stack_entry =
  bj_type :: string
  bj_position :: int
  array_size :: "32 word"

record bin_to_json_state =
  bj_bin :: input_buffer
  writer :: "writer_call list"
  bj_stack :: "bin_to_json_stack_entry list"

text \<open>\<^verbatim>\<open>std::to_string\<close> of an unsigned and of a signed integer.\<close>

function to_string_nat :: "nat \<Rightarrow> string" where
  "to_string_nat n =
     (if n < 10 then [char_of (48 + n)] else to_string_nat (n div 10) @ [char_of (48 + n mod 10)])"
  by pat_completeness auto
termination
  by (relation "measure id") auto

declare to_string_nat.simps [simp del]

definition to_string_int :: "int \<Rightarrow> string" where
  "to_string_int i = (if i < 0 then CHR ''-'' # to_string_nat (nat (- i)) else to_string_nat (nat i))"

definition signed_value :: "byte list \<Rightarrow> int" where
  \<comment> \<open>little-endian two's complement\<close>
  "signed_value bs =
     (let v = int (from_le_bytes bs); w = 8 * length bs
      in if v \<ge> 2 ^ (w - 1) then v - 2 ^ w else v)"

text \<open>\<^verbatim>\<open>boost::algorithm::hex\<close>: two upper-case hex digits per byte.\<close>

definition hex_char :: "nat \<Rightarrow> char" where
  "hex_char d = (if d < 10 then char_of (48 + d) else char_of (55 + d))"

definition hex :: "byte list \<Rightarrow> string" where
  "hex bs = concat (map (\<lambda>b. [hex_char (unat b div 16), hex_char (unat b mod 16)]) bs)"

text \<open>
  \<^verbatim>\<open>asset_to_string\<close> builds its result backwards, digit by digit: first \<open>precision\<close>
  digits and the point, then the remaining digits, at least one, then the sign. The
  model takes the decimal digits of the amount, padded with zeros to \<open>precision + 1\<close>
  digits, and puts the point before the last \<open>precision\<close> of them.
\<close>

definition asset_to_string :: "asset \<Rightarrow> string" where
  "asset_to_string v =
     (let negative = (sint (amount v) < 0);
          amt = unat (if negative then - amount v else amount v);
          precision = unat (ucast (sym v) :: byte);
          digits = to_string_nat amt;
          padded = replicate (precision + 1 - length digits) (CHR ''0'') @ digits;
          whole = take (length padded - precision) padded;
          frac = drop (length padded - precision) padded
      in (if negative then ''-'' else '''') @ whole @ (if precision > 0 then CHR ''.'' # frac else '''')
         @ CHR '' '' # symbol_code_to_string (drop_bit 8 (sym v)))"

text \<open>
  The overloads of \<^verbatim>\<open>bin_to_json\<close> for the built-in types: what is read and the one
  value written.
\<close>

definition read_fixed ::
  "nat \<Rightarrow> (byte list \<Rightarrow> error + writer_call) \<Rightarrow> input_buffer \<Rightarrow> error + (writer_call \<times> input_buffer)" where
  "read_fixed n f bin =
     (case read_bin bin n of
        Inl e \<Rightarrow> Inl e
      | Inr (bs, rest) \<Rightarrow> (case f bs of Inl e \<Rightarrow> Inl e | Inr c \<Rightarrow> Inr (c, rest)))"

definition external_to_string :: "(byte list \<Rightarrow> string option) \<Rightarrow> byte list \<Rightarrow> error + writer_call" where
  "external_to_string f bs = (case f bs of None \<Rightarrow> Inl external_error | Some s \<Rightarrow> Inr (w_String s))"

definition time_point_to_string :: "externals \<Rightarrow> 64 word \<Rightarrow> string" where
  "time_point_to_string ext microseconds =
     to_iso_extended_string ext (microseconds div 1000000) @ ''.'' @
     tl (to_string_nat (unat ((microseconds mod 1000000) div 1000 + 1000)))"

definition read_varint32 :: "input_buffer \<Rightarrow> error + (32 word \<times> input_buffer)" where
  "read_varint32 bin =
     (case read_varuint32 bin of
        Inl e \<Rightarrow> Inl e
      | Inr (v, rest) \<Rightarrow>
          Inr (if v AND 1 \<noteq> 0 then drop_bit 1 (NOT v) OR 0x80000000 else drop_bit 1 v, rest))"

definition bin_to_json_builtin ::
  "externals \<Rightarrow> abi_serializer \<Rightarrow> input_buffer \<Rightarrow> error + (writer_call \<times> input_buffer)" where
  "bin_to_json_builtin ext s bin =
     (case s of
        ser_bool \<Rightarrow> read_fixed 1 (\<lambda>bs. Inr (w_Bool (from_le_bytes bs \<noteq> 0))) bin
      | ser_int8 \<Rightarrow> read_fixed 1 (\<lambda>bs. Inr (w_Int64 (signed_value bs))) bin
      | ser_uint8 \<Rightarrow> read_fixed 1 (\<lambda>bs. Inr (w_Uint64 (from_le_bytes bs))) bin
      | ser_int16 \<Rightarrow> read_fixed 2 (\<lambda>bs. Inr (w_Int64 (signed_value bs))) bin
      | ser_uint16 \<Rightarrow> read_fixed 2 (\<lambda>bs. Inr (w_Uint64 (from_le_bytes bs))) bin
      | ser_int32 \<Rightarrow> read_fixed 4 (\<lambda>bs. Inr (w_Int64 (signed_value bs))) bin
      | ser_uint32 \<Rightarrow> read_fixed 4 (\<lambda>bs. Inr (w_Uint64 (from_le_bytes bs))) bin
      | ser_int64 \<Rightarrow> read_fixed 8 (\<lambda>bs. Inr (w_String (to_string_int (signed_value bs)))) bin
      | ser_uint64 \<Rightarrow> read_fixed 8 (\<lambda>bs. Inr (w_String (to_string_nat (from_le_bytes bs)))) bin
      | ser_int128 \<Rightarrow>
          read_fixed 16
            (\<lambda>bs. Inr (w_String (if is_negative ext bs
                                  then CHR ''-'' # binary_to_decimal ext (negate ext bs)
                                  else binary_to_decimal ext bs))) bin
      | ser_uint128 \<Rightarrow> read_fixed 16 (\<lambda>bs. Inr (w_String (binary_to_decimal ext bs))) bin
      | ser_varuint32 \<Rightarrow>
          (case read_varuint32 bin of
             Inl e \<Rightarrow> Inl e | Inr (v, rest) \<Rightarrow> Inr (w_Uint64 (unat v), rest))
      | ser_varint32 \<Rightarrow>
          (case read_varint32 bin of
             Inl e \<Rightarrow> Inl e | Inr (v, rest) \<Rightarrow> Inr (w_Int64 (sint v), rest))
      | ser_float32 \<Rightarrow> read_fixed 4 (\<lambda>bs. Inr (w_Double bs)) bin
      | ser_float64 \<Rightarrow> read_fixed 8 (\<lambda>bs. Inr (w_Double bs)) bin
      | ser_float128 \<Rightarrow> read_fixed 16 (\<lambda>bs. Inr (w_String (hex bs))) bin
      | ser_time_point \<Rightarrow>
          read_fixed 8
            (\<lambda>bs. Inr (w_String (time_point_to_string ext (word_of_nat (from_le_bytes bs))))) bin
      | ser_time_point_sec \<Rightarrow>
          read_fixed 4
            (\<lambda>bs. Inr (w_String (to_iso_extended_string ext (word_of_nat (from_le_bytes bs))
                                  @ ''.000''))) bin
      | ser_block_timestamp \<Rightarrow>
          read_fixed 4
            (\<lambda>bs. Inr (w_String (time_point_to_string ext
                     ((word_of_nat (from_le_bytes bs) * 500 + 946684800000) * 1000)))) bin
      | ser_name \<Rightarrow>
          read_fixed 8 (\<lambda>bs. Inr (w_String (name_to_string (word_of_nat (from_le_bytes bs))))) bin
      | ser_bytes \<Rightarrow>
          (case read_varuint32 bin of
             Inl e \<Rightarrow> Inl e
           | Inr (sz, rest) \<Rightarrow>
               if unat sz > length rest then Inl invalid_bytes_size
               else read_fixed (unat sz) (\<lambda>bs. Inr (w_String (hex bs))) rest)
      | ser_string \<Rightarrow>
          (case read_string bin of Inl e \<Rightarrow> Inl e | Inr (str, rest) \<Rightarrow> Inr (w_String str, rest))
      | ser_checksum160 \<Rightarrow> read_fixed 20 (\<lambda>bs. Inr (w_String (hex bs))) bin
      | ser_checksum256 \<Rightarrow> read_fixed 32 (\<lambda>bs. Inr (w_String (hex bs))) bin
      | ser_checksum512 \<Rightarrow> read_fixed 64 (\<lambda>bs. Inr (w_String (hex bs))) bin
      | ser_public_key \<Rightarrow>
          read_fixed (sizeof_public_key ext) (external_to_string (public_key_to_string ext)) bin
      | ser_private_key \<Rightarrow>
          read_fixed (sizeof_private_key ext) (external_to_string (private_key_to_string ext)) bin
      | ser_signature \<Rightarrow>
          read_fixed (sizeof_signature ext) (external_to_string (signature_to_string ext)) bin
      | ser_symbol \<Rightarrow>
          read_fixed 8
            (\<lambda>bs. let v = (word_of_nat (from_le_bytes bs) :: 64 word)
                  in Inr (w_String (to_string_nat (unat (v AND 0xff)) @ '','' @
                                    symbol_code_to_string (drop_bit 8 v)))) bin
      | ser_symbol_code \<Rightarrow>
          read_fixed 8
            (\<lambda>bs. Inr (w_String (symbol_code_to_string (word_of_nat (from_le_bytes bs))))) bin
      | ser_asset \<Rightarrow>
          read_fixed 16
            (\<lambda>bs. Inr (w_String (asset_to_string
                     \<lparr>amount = word_of_nat (from_le_bytes (take 8 bs)),
                      sym = word_of_nat (from_le_bytes (drop 8 bs))\<rparr>))) bin
      | _ \<Rightarrow> Inl undefined_behavior)"

text \<open>
  \<open>ser_bin_to_json ext m t state start\<close> is the call
  \<^verbatim>\<open>type->ser && type->ser->bin_to_json(state, type, start)\<close> for the type stored
  under \<open>t\<close>. The overload for \<^verbatim>\<open>pseudo_optional\<close> reads one byte and tests it with
  \<^verbatim>\<open>if (read_bin<uint8_t>(state.bin))\<close>.
\<close>

function ser_bin_to_json ::
  "externals \<Rightarrow> abi_types \<Rightarrow> string \<Rightarrow> bin_to_json_state \<Rightarrow> bool \<Rightarrow> error + bin_to_json_state" where
  "ser_bin_to_json ext m t state start =
     (case map_of m t of
        None \<Rightarrow> Inl undefined_behavior
      | Some type \<Rightarrow>
          (case ser type of
             None \<Rightarrow> Inl returned_false
           | Some s \<Rightarrow>
               if s = pseudo_optional then
                 (case bj_bin state of
                    [] \<Rightarrow> Inl read_past_end
                  | tag # rest \<Rightarrow>
                      if tag \<noteq> 0 then
                        (case optional_of type of
                           None \<Rightarrow> Inl undefined_behavior
                         | Some inner \<Rightarrow> ser_bin_to_json ext m inner (state\<lparr>bj_bin := rest\<rparr>) True)
                      else Inr (state\<lparr>bj_bin := rest, writer := writer state @ [w_Null]\<rparr>))
               else if s = pseudo_object then
                 (if start then
                    Inr (state\<lparr>bj_stack := bj_stack state @
                           [\<lparr>bj_type = t, bj_position = - 1, array_size = 0\<rparr>],
                         writer := writer state @ [w_StartObject]\<rparr>)
                  else
                    (case rev (bj_stack state) of
                       [] \<Rightarrow> Inl undefined_behavior
                     | stack_entry # below \<Rightarrow>
                         if bj_position stack_entry + 1 < int (length (t_fields type)) then
                           (if bj_position stack_entry + 1 < 0 then Inl undefined_behavior
                            else
                              let field = t_fields type ! nat (bj_position stack_entry + 1)
                              in ser_bin_to_json ext m (f_type field)
                                   (state\<lparr>bj_stack := rev below @
                                        [stack_entry\<lparr>bj_position := bj_position stack_entry + 1\<rparr>],
                                      writer := writer state @ [w_Key (f_name field)]\<rparr>)
                                   True)
                         else Inr (state\<lparr>bj_stack := rev below,
                                        writer := writer state @ [w_EndObject]\<rparr>)))
               else if s = pseudo_array then
                 (if start then
                    (case read_varuint32 (bj_bin state) of
                       Inl e \<Rightarrow> Inl e
                     | Inr (n, rest) \<Rightarrow>
                         Inr (state\<lparr>bj_bin := rest,
                                bj_stack := bj_stack state @
                                  [\<lparr>bj_type = t, bj_position = - 1, array_size = n\<rparr>],
                                writer := writer state @ [w_StartArray]\<rparr>))
                  else
                    (case rev (bj_stack state) of
                       [] \<Rightarrow> Inl undefined_behavior
                     | stack_entry # below \<Rightarrow>
                         if bj_position stack_entry + 1 < int (unat (array_size stack_entry)) then
                           (case array_of type of
                              None \<Rightarrow> Inl undefined_behavior
                            | Some element \<Rightarrow>
                                ser_bin_to_json ext m element
                                  (state\<lparr>bj_stack := rev below @
                                     [stack_entry\<lparr>bj_position := bj_position stack_entry + 1\<rparr>]\<rparr>)
                                  True)
                         else Inr (state\<lparr>bj_stack := rev below,
                                        writer := writer state @ [w_EndArray]\<rparr>)))
               else
                 (case bin_to_json_builtin ext s (bj_bin state) of
                    Inl e \<Rightarrow> Inl e
                  | Inr (c, rest) \<Rightarrow> Inr (state\<lparr>bj_bin := rest, writer := writer state @ [c]\<rparr>))))"
  by pat_completeness auto
termination
  by (relation "measures [\<lambda>(ext, m, t, state, start). if start then 0 else 1,
                          \<lambda>(ext, m, t, state, start). length (bj_bin state)]") auto

declare ser_bin_to_json.simps [simp del]

text \<open>
  \<^verbatim>\<open>bin_to_json(input_buffer& bin, const abi_type* type, std::string& dest)\<close>: the first
  call with \<open>start\<close>, then the loop on the top of the stack. The result is what was
  written and what is left of the input. \<open>None\<close> stands for a loop that does not end.
\<close>

partial_function (option) bin_to_json_loop ::
  "externals \<Rightarrow> abi_types \<Rightarrow> bin_to_json_state \<Rightarrow> (error + bin_to_json_state) option" where
  "bin_to_json_loop ext m state =
     (case rev (bj_stack state) of
        [] \<Rightarrow> Some (Inr state)
      | back # below \<Rightarrow>
          (case ser_bin_to_json ext m (bj_type back) state False of
             Inl e \<Rightarrow> Some (Inl e)
           | Inr state' \<Rightarrow>
               if length (bj_stack state') > max_stack_size
               then Some (Inl recursion_limit_reached)
               else bin_to_json_loop ext m state'))"

declare bin_to_json_loop.simps [code]

definition bin_to_json ::
  "externals \<Rightarrow> abi_types \<Rightarrow> string \<Rightarrow> input_buffer
     \<Rightarrow> (error + (writer_call list \<times> input_buffer)) option" where
  "bin_to_json ext m t bin =
     (case ser_bin_to_json ext m t \<lparr>bj_bin = bin, writer = [], bj_stack = []\<rparr> True of
        Inl e \<Rightarrow> Some (Inl e)
      | Inr state \<Rightarrow>
          (case bin_to_json_loop ext m state of
             None \<Rightarrow> None
           | Some (Inl e) \<Rightarrow> Some (Inl e)
           | Some (Inr state') \<Rightarrow> Some (Inr (writer state', bj_bin state'))))"


section \<open>Example: the struct \<open>S\<close>\<close>

text \<open>
  The schema \<^verbatim>\<open>struct S { a: uint32, b: string? }\<close>, the type map of its contract, and
  stand-ins for the helpers outside this file, for runs that do not call them.
\<close>

definition struct_S_abi :: abi_def where
  "struct_S_abi =
     \<lparr>types = [],
      structs = [\<lparr>sd_name = ''S'', sd_base = [],
                  sd_fields = [\<lparr>fd_name = ''a'', fd_type = ''uint32''\<rparr>,
                               \<lparr>fd_name = ''b'', fd_type = ''string?''\<rparr>]\<rparr>],
      actions = []\<rparr>"

definition struct_S_types :: abi_types where
  "struct_S_types = (case create_contract struct_S_abi of Inl e \<Rightarrow> [] | Inr c \<Rightarrow> c_abi_types c)"

definition no_externals :: externals where
  "no_externals =
     \<lparr>stof = (\<lambda>s. None), stod = (\<lambda>s. None), parse_time_point_sec = (\<lambda>s. None),
      string_to_public_key = (\<lambda>s. None), string_to_private_key = (\<lambda>s. None),
      string_to_signature = (\<lambda>s. None), to_iso_extended_string = (\<lambda>t. []),
      sizeof_public_key = 0, sizeof_private_key = 0, sizeof_signature = 0,
      public_key_to_string = (\<lambda>bs. None), private_key_to_string = (\<lambda>bs. None),
      signature_to_string = (\<lambda>bs. None),
      decimal_to_binary = (\<lambda>s. None), binary_to_decimal = (\<lambda>bs. []),
      negate = (\<lambda>bs. bs), is_negative = (\<lambda>bs. False)\<rparr>"

text \<open>
  No optional type of the map has an optional type inside: what the check
  "optional and array don't support nesting" of \<^verbatim>\<open>get_type\<close> provides for optionals.
\<close>

definition optionals_not_nested :: "abi_types \<Rightarrow> bool" where
  "optionals_not_nested m =
     list_all (\<lambda>(k, type). ser type = Some pseudo_optional \<longrightarrow>
                 (case optional_of type of
                    None \<Rightarrow> False
                  | Some inner \<Rightarrow>
                      (case map_of m inner of
                         None \<Rightarrow> False
                       | Some inner_type \<Rightarrow> ser inner_type \<noteq> Some pseudo_optional))) m"


section \<open>Verification: varuint32\<close>

lemma n7f: "(0x7f :: 'a::len word) = mask 7" by (simp add: mask_eq_exp_minus_1)
lemma n80: "(0x80 :: 'a::len word) = push_bit 7 1" by simp



lemma and_80: "(b :: byte) AND 0x80 = 0 \<longleftrightarrow> \<not> bit b 7"
proof
  assume "b AND 0x80 = 0"
  then have "\<not> bit (b AND push_bit 7 1) 7" by simp
  then show "\<not> bit b 7" by (simp add: bit_simps)
next
  assume "\<not> bit b 7"
  have "b AND push_bit 7 1 = 0"
  proof (rule bit_word_eqI)
    fix n show "bit (b AND push_bit 7 1) n = bit (0 :: byte) n"
      using \<open>\<not> bit b 7\<close> by (cases "n = 7") (auto simp only: bit_and_iff bit_push_bit_iff bit_1_iff bit_0_eq)
  qed
  then show "b AND 0x80 = 0" by simp
qed

lemma low7: "(ucast ((b :: byte) AND 0x7f) :: 32 word) = ucast (take_bit 7 b)"
  unfolding n7f by (simp add: take_bit_eq_mask)

lemma glue: "push_bit shift (ucast (take_bit 7 (val :: 64 word)) :: 32 word) OR
       push_bit (shift + 7) (ucast (drop_bit 7 val)) = push_bit shift (ucast val)"
proof (rule bit_word_eqI)
  fix n assume "n < LENGTH(32)"
  show "bit (push_bit shift (ucast (take_bit 7 val) :: 32 word) OR
       push_bit (shift + 7) (ucast (drop_bit 7 val))) n = bit (push_bit shift (ucast val) :: 32 word) n"
  proof (cases "n - shift < 7")
    case True
    then show ?thesis by (auto simp add: bit_simps)
  next
    case False
    then have "7 + (n - (shift + 7)) = n - shift" by arith
    with False show ?thesis by (auto simp add: bit_simps)
  qed
qed

lemma emitted_low7: 
  "take_bit 7 ((ucast (val AND 0x7f) :: byte) OR push_bit 7 c) = ucast (take_bit 7 (val :: 64 word))"
  unfolding n7f
  by (rule bit_word_eqI) (auto simp add: bit_simps take_bit_eq_mask)

lemma emitted_cont:
  "bit ((ucast (val AND 0x7f) :: byte) OR push_bit 7 c) 7 = bit c 0" for val :: "64 word"
  unfolding n7f
  by (auto simp add: bit_simps take_bit_eq_mask)

lemma ucast_low7: "(ucast (ucast (take_bit 7 (val :: 64 word)) :: byte) :: 32 word) = ucast (take_bit 7 val)"
  by (rule bit_word_eqI) (auto simp add: bit_simps)

lemma read_push_loop:
  "shift + 7 * length (push_varuint32_loop val) \<le> 38 \<Longrightarrow>
   read_varuint32_loop result shift (push_varuint32_loop val @ rest)
     = Inr (result OR push_bit shift (ucast val), rest)"
proof (induction val arbitrary: result shift rule: push_varuint32_loop.induct)
  case (1 val)
  define b where "b c = (ucast (val AND 0x7f) :: byte) OR push_bit 7 c" for c
  have b7: "bit (b c) 7 = bit c 0" for c unfolding b_def by (rule emitted_cont)
  have bl: "(ucast (b c AND 0x7f) :: 32 word) = ucast (take_bit 7 val)" for c
    unfolding low7 b_def emitted_low7 ucast_low7 ..
  show ?case
  proof (cases "drop_bit 7 val = 0")
    case True
    then have p: "push_varuint32_loop val = [b 0]"
      by (subst push_varuint32_loop.simps) (simp add: Let_def b_def)
    from "1.prems" have sm: "shift mod 32 = shift" unfolding p by simp
    have "take_bit 7 val = val"
      using True by (metis bits_ident push_bit_of_0 add_0)
    then have v: "(ucast (take_bit 7 val) :: 32 word) = ucast val" by simp
    show ?thesis
      unfolding p by (simp add: Let_def and_80 b7 bl v sm)
  next
    case False
    then have p: "push_varuint32_loop val = b 1 # push_varuint32_loop (drop_bit 7 val)"
      by (subst push_varuint32_loop.simps) (simp add: Let_def word_greater_zero_iff b_def)
    from "1.prems" have sm: "shift mod 32 = shift" unfolding p by simp
    from "1.prems" have len: "shift + 7 + 7 * length (push_varuint32_loop (drop_bit 7 val)) \<le> 38"
      unfolding p by simp
    have "read_varuint32_loop result shift ((b 1 # push_varuint32_loop (drop_bit 7 val)) @ rest)
        = read_varuint32_loop (result OR push_bit shift (ucast (take_bit 7 val))) (shift + 7)
             (push_varuint32_loop (drop_bit 7 val) @ rest)"
      by (simp add: Let_def and_80 b7 bl sm)
    also have "\<dots> = Inr ((result OR push_bit shift (ucast (take_bit 7 val))) OR
           push_bit (shift + 7) (ucast (drop_bit 7 val)), rest)"
      using False len by (intro "1.IH") auto
    also have "\<dots> = Inr (result OR push_bit shift (ucast val), rest)"
      by (simp add: or.assoc glue)
    finally show ?thesis unfolding p .
  qed
qed

lemma unat_drop7: "unat (drop_bit 7 (val :: 64 word)) = unat val div 128"
proof -
  have "unat (drop_bit 7 val) = drop_bit 7 (unat val)" by (rule unat_drop_bit_eq)
  also have "\<dots> = unat val div 2 ^ 7" by (rule drop_bit_eq_div)
  finally show ?thesis by simp
qed

lemma push_loop_unfold:
  "push_varuint32_loop val =
     (if drop_bit 7 val = 0 then [ucast (take_bit 7 val)]
      else (ucast (take_bit 7 val) OR push_bit 7 1) # push_varuint32_loop (drop_bit 7 val))"
  unfolding n7f
  by (subst push_varuint32_loop.simps)
     (simp add: Let_def word_greater_zero_iff take_bit_eq_mask n7f del: push_bit_of_1)

lemma low_byte_clear: "\<not> bit (ucast (take_bit 7 (val :: 64 word)) :: byte) 7"
  by (simp add: bit_simps)

lemma low_byte_zero: "(ucast (take_bit 7 (val :: 64 word)) :: byte) = 0 \<longleftrightarrow> take_bit 7 val = 0"
proof
  assume z: "(ucast (take_bit 7 val) :: byte) = 0"
  show "take_bit 7 val = 0"
  proof (rule bit_word_eqI)
    fix n
    have "bit (ucast (take_bit 7 val) :: byte) n = bit (take_bit 7 val) n"
      by (auto simp add: bit_simps)
    with z show "bit (take_bit 7 val) n = bit (0 :: 64 word) n" by simp
  qed
qed simp

lemma push_loop_nonempty: "push_varuint32_loop val \<noteq> []"
  by (subst push_loop_unfold) simp

lemma push_loop_last_clear: "\<not> bit (last (push_varuint32_loop val)) 7"
proof (induction val rule: push_varuint32_loop.induct)
  case (1 val)
  show ?case
  proof (cases "drop_bit 7 val = 0")
    case True
    then show ?thesis by (subst push_loop_unfold) (simp add: low_byte_clear)
  next
    case False
    then have "\<not> bit (last (push_varuint32_loop (drop_bit 7 val))) 7"
      by (intro "1.IH") auto
    with False show ?thesis by (subst push_loop_unfold) (simp add: push_loop_nonempty)
  qed
qed

lemma push_loop_butlast_set: "b \<in> set (butlast (push_varuint32_loop val)) \<Longrightarrow> bit b 7"
proof (induction val rule: push_varuint32_loop.induct)
  case (1 val)
  show ?case
  proof (cases "drop_bit 7 val = 0")
    case True
    with "1.prems" show ?thesis by (subst (asm) push_loop_unfold) simp
  next
    case False
    with "1.prems" have "b = ucast (take_bit 7 val) OR push_bit 7 1 \<or>
       b \<in> set (butlast (push_varuint32_loop (drop_bit 7 val)))"
      by (subst (asm) push_loop_unfold) (simp add: push_loop_nonempty del: push_bit_of_1)
    then show ?thesis
    proof
      assume "b = ucast (take_bit 7 val) OR push_bit 7 1"
      then show ?thesis by (simp add: bit_simps)
    next
      assume "b \<in> set (butlast (push_varuint32_loop (drop_bit 7 val)))"
      with False show ?thesis by (intro "1.IH") auto
    qed
  qed
qed

lemma push_loop_last_nonzero: "val \<noteq> 0 \<Longrightarrow> last (push_varuint32_loop val) \<noteq> 0"
proof (induction val rule: push_varuint32_loop.induct)
  case (1 val)
  show ?case
  proof (cases "drop_bit 7 val = 0")
    case True
    have "take_bit 7 val = val"
      using True by (metis bits_ident push_bit_of_0 add_0)
    with "1.prems" have "take_bit 7 val \<noteq> 0" by simp
    with True show ?thesis by (subst push_loop_unfold) (simp add: low_byte_zero)
  next
    case False
    then have "last (push_varuint32_loop (drop_bit 7 val)) \<noteq> 0"
      by (intro "1.IH") auto
    with False show ?thesis by (subst push_loop_unfold) (simp add: push_loop_nonempty)
  qed
qed

lemma push_loop_length: "unat val < 2 ^ (7 * Suc k) \<Longrightarrow> length (push_varuint32_loop val) \<le> Suc k"
proof (induction k arbitrary: val)
  case 0
  then have "unat (drop_bit 7 val) = 0"
    unfolding unat_drop7 by simp
  then have "drop_bit 7 val = 0" by (simp only: unat_eq_0)
  then show ?case by (subst push_loop_unfold) simp
next
  case (Suc k)
  from Suc.prems have "unat (drop_bit 7 val) < 2 ^ (7 * Suc k)"
    unfolding unat_drop7 by (simp add: less_mult_imp_div_less power_add)
  then have "length (push_varuint32_loop (drop_bit 7 val)) \<le> Suc k" by (rule Suc.IH)
  then show ?case by (subst push_loop_unfold) simp
qed

lemma push_varuint32_length: "length (push_varuint32 v) \<le> 5"
proof -
  have "unat v < 2 ^ 32" using unsigned_less[of v] by simp
  then have "unat v < 2 ^ 64" by simp
  then have "unat (ucast v :: 64 word) = unat v"
    by (simp add: unsigned_ucast_eq take_bit_nat_eq_self)
  also have "\<dots> < 2 ^ 32" by fact
  also have "(2::nat) ^ 32 \<le> 2 ^ (7 * Suc 4)" by simp
  finally show ?thesis unfolding push_varuint32_def using push_loop_length[of _ 4] by simp
qed

lemma read_push_varuint32: "read_varuint32 (push_varuint32 v @ rest) = Inr (v, rest)"
proof -
  have "(ucast (ucast v :: 64 word) :: 32 word) = v"
    by (rule bit_word_eqI) (auto simp add: bit_simps)
  moreover have "0 + 7 * length (push_varuint32_loop (ucast v)) \<le> 38"
    using push_varuint32_length[of v] by (simp add: push_varuint32_def)
  ultimately show ?thesis
    by (simp add: read_varuint32_def push_varuint32_def read_push_loop)
qed

lemma read_loop_shape:
  "case dropWhile (\<lambda>b. b AND 0x80 \<noteq> 0) bin of
     [] \<Rightarrow> read_varuint32_loop result shift bin = Inl read_past_end
   | b # rest \<Rightarrow> (\<exists>v. read_varuint32_loop result shift bin = Inr (v, rest))"
proof (induction bin arbitrary: result shift)
  case Nil
  show ?case by simp
next
  case (Cons a bin)
  show ?case
  proof (cases "a AND 0x80 \<noteq> 0")
    case True
    then have e1: "read_varuint32_loop result shift (a # bin) =
        read_varuint32_loop (result OR push_bit (shift mod 32) (ucast (a AND 0x7f))) (shift + 7) bin"
      by (simp add: Let_def)
    from True have e2: "dropWhile (\<lambda>b. b AND 0x80 \<noteq> 0) (a # bin) =
        dropWhile (\<lambda>b. b AND 0x80 \<noteq> 0) bin"
      by simp
    show ?thesis unfolding e1 e2 by (rule Cons)
  next
    case False
    then show ?thesis by (simp add: Let_def)
  qed
qed

lemma push_varuint32_zero: "push_varuint32 0 = [0]"
  unfolding push_varuint32_def by (subst push_loop_unfold) simp

lemma push_varuint32_last_nonzero: "n \<noteq> 0 \<Longrightarrow> last (push_varuint32 n) \<noteq> 0"
proof -
  assume "n \<noteq> 0"
  then have "unat n \<noteq> 0" by (simp add: unat_eq_0)
  moreover have "unat n < 2 ^ 32" using unsigned_less[of n] by simp
  then have "unat n < 2 ^ 64" by simp
  then have "unat (ucast n :: 64 word) = unat n"
    by (simp add: unsigned_ucast_eq take_bit_nat_eq_self)
  ultimately have "(ucast n :: 64 word) \<noteq> 0" by (metis unat_eq_0)
  then show ?thesis unfolding push_varuint32_def by (rule push_loop_last_nonzero)
qed

text \<open>
  What a successful read can return after \<open>k\<close> rounds started at \<open>shift\<close>: no bit at or
  above \<open>shift + 7 * k\<close> that was not in \<open>result\<close> already.
\<close>

lemma read_loop_bits:
  "read_varuint32_loop result shift bin = Inr (v, rest) \<Longrightarrow>
   (\<And>i. bit result i \<Longrightarrow> i < shift) \<Longrightarrow>
   bit v i \<Longrightarrow> i < shift + 7 * (length bin - length rest)"
proof (induction bin arbitrary: result shift)
  case Nil
  then show ?case by simp
next
  case (Cons b bin)
  let ?r = "result OR push_bit (shift mod 32) (ucast (b AND 0x7f))"
  have low: "j < shift + 7" if "bit ?r j" for j
  proof -
    from that have "bit result j \<or> bit (push_bit (shift mod 32) (ucast (take_bit 7 b) :: 32 word)) j"
      unfolding low7 by (simp add: bit_or_iff)
    then show ?thesis
    proof
      assume "bit result j"
      then have "j < shift" by (rule Cons.prems(2))
      then show ?thesis by simp
    next
      assume "bit (push_bit (shift mod 32) (ucast (take_bit 7 b) :: 32 word)) j"
      then have "shift mod 32 \<le> j \<and> j - shift mod 32 < 7" by (simp add: bit_simps)
      moreover have "shift mod 32 \<le> shift" by simp
      ultimately show ?thesis by arith
    qed
  qed
  show ?case
  proof (cases "b AND 0x80 \<noteq> 0")
    case True
    with Cons.prems(1) have rd: "read_varuint32_loop ?r (shift + 7) bin = Inr (v, rest)"
      by (simp add: Let_def)
    have "length rest \<le> length bin"
    proof -
      from read_loop_shape[where bin = bin and result = ?r and shift = "shift + 7"] rd
      obtain c where "dropWhile (\<lambda>b. b AND 0x80 \<noteq> 0) bin = c # rest"
        by (auto split: list.splits)
      then have "length (c # rest) \<le> length bin"
        by (metis length_dropWhile_le)
      then show ?thesis by simp
    qed
    moreover have "i < shift + 7 + 7 * (length bin - length rest)"
      using rd low Cons.prems(3) by (rule Cons.IH)
    ultimately show ?thesis by simp
  next
    case False
    with Cons.prems(1) have "v = ?r" and "rest = bin" by (simp_all add: Let_def)
    with low[of i] Cons.prems(3) show ?thesis by simp
  qed
qed

lemma push_varuint32_minimal:
  assumes "read_varuint32 bs = Inr (n, [])"
  shows "length (push_varuint32 n) \<le> length bs"
proof (cases "5 \<le> length bs")
  case True
  with push_varuint32_length[of n] show ?thesis by simp
next
  case False
  have bs: "bs \<noteq> []" using assms by (auto simp add: read_varuint32_def)
  then obtain k where k: "length bs = Suc k" by (cases bs) auto
  have bits: "i < 7 * Suc k" if "bit n i" for i
  proof -
    have "\<And>j. bit (0 :: 32 word) j \<Longrightarrow> j < 0" by simp
    from read_loop_bits[OF assms[unfolded read_varuint32_def] this that] k
    show ?thesis by simp
  qed
  have "take_bit (7 * Suc k) n = n"
    by (rule bit_word_eqI) (auto simp add: bit_simps dest: bits)
  then have "unat n < 2 ^ (7 * Suc k)"
    by (metis unsigned_take_bit_eq take_bit_nat_less_exp)
  moreover have "unat n < 2 ^ 32" using unsigned_less[of n] by simp
  then have "unat n < 2 ^ 64" by simp
  then have "unat (ucast n :: 64 word) = unat n"
    by (simp add: unsigned_ucast_eq take_bit_nat_eq_self)
  ultimately have "length (push_varuint32_loop (ucast n)) \<le> Suc k"
    by (intro push_loop_length) simp
  with k show ?thesis by (simp add: push_varuint32_def)
qed

text \<open>
  C3. For every 32-bit \<open>n\<close>, reading back what \<^verbatim>\<open>push_varuint32\<close> wrote returns \<open>n\<close> and
  leaves the bytes that follow untouched. The bytes written are canonical LEB128: at
  most five, every byte but the last with the continuation bit, the last one without
  it and not zero unless the whole encoding is the single byte 0; and no byte sequence
  that decodes to \<open>n\<close> is shorter.
\<close>

theorem varuint32_roundtrip_canonical:
  "read_varuint32 (push_varuint32 n @ rest) = Inr (n, rest) \<and>
   length (push_varuint32 n) \<le> 5 \<and>
   (\<forall>b \<in> set (butlast (push_varuint32 n)). b AND 0x80 \<noteq> 0) \<and>
   last (push_varuint32 n) AND 0x80 = 0 \<and>
   (push_varuint32 n = [0] \<or> last (push_varuint32 n) \<noteq> 0) \<and>
   (\<forall>bs. read_varuint32 bs = Inr (n, []) \<longrightarrow> length (push_varuint32 n) \<le> length bs)"
proof (intro conjI)
  show "read_varuint32 (push_varuint32 n @ rest) = Inr (n, rest)"
    by (rule read_push_varuint32)
  show "length (push_varuint32 n) \<le> 5"
    by (rule push_varuint32_length)
  show "\<forall>b \<in> set (butlast (push_varuint32 n)). b AND 0x80 \<noteq> 0"
    unfolding push_varuint32_def by (auto simp add: and_80 dest: push_loop_butlast_set)
  show "last (push_varuint32 n) AND 0x80 = 0"
    unfolding push_varuint32_def by (simp add: and_80 push_loop_last_clear)
  show "push_varuint32 n = [0] \<or> last (push_varuint32 n) \<noteq> 0"
    using push_varuint32_zero push_varuint32_last_nonzero[of n] by (cases "n = 0") auto
  show "\<forall>bs. read_varuint32 bs = Inr (n, []) \<longrightarrow> length (push_varuint32 n) \<le> length bs"
    using push_varuint32_minimal by blast
qed

lemma push_varuint32_deadbeef: "push_varuint32 0xdeadbeef = [0xef, 0xfd, 0xb6, 0xf5, 0x0d]"
  by code_simp

theorem varuint32_roundtrip_canonical_witness:
  "push_varuint32 0xdeadbeef = [0xef, 0xfd, 0xb6, 0xf5, 0x0d] \<and>
   read_varuint32 [0xef, 0xfd, 0xb6, 0xf5, 0x0d] = Inr (0xdeadbeef, []) \<and>
   (0xef :: byte) \<in> set (butlast (push_varuint32 0xdeadbeef)) \<and> (0xef :: byte) AND 0x80 \<noteq> 0 \<and>
   last (push_varuint32 0xdeadbeef) \<noteq> 0 \<and>
   length (push_varuint32 0xdeadbeef) \<le> length [0xef :: byte, 0xfd, 0xb6, 0xf5, 0x0d]"
  using varuint32_roundtrip_canonical[of "0xdeadbeef" "[]"]
  by (simp add: push_varuint32_deadbeef)

text \<open>
  C4, as stated, fails: a sixth byte is read as any other. The encoding below has the
  continuation bit set on its first five bytes; \<^verbatim>\<open>read_varuint32\<close> returns 1 and has
  consumed all six bytes.
\<close>

theorem read_varuint32_six_bytes_counterexample:
  "read_varuint32 [0x81, 0x80, 0x80, 0x80, 0x80, 0x00] = Inr (1, [])"
  by (simp add: read_varuint32_def Let_def)

text \<open>
  C4, amended. \<^verbatim>\<open>read_varuint32\<close> puts no bound on the number of bytes: it reads up to
  and including the first byte whose continuation bit is clear, wherever that byte is,
  and fails, with "read past end", exactly when the input has no such byte.
\<close>

theorem read_varuint32_fails_only_at_end:
  "case dropWhile (\<lambda>b. b AND 0x80 \<noteq> 0) bin of
     [] \<Rightarrow> read_varuint32 bin = Inl read_past_end
   | b # rest \<Rightarrow> (\<exists>v. read_varuint32 bin = Inr (v, rest))"
  unfolding read_varuint32_def by (rule read_loop_shape)

theorem read_varuint32_fails_only_at_end_witness:
  "read_varuint32 [0xff, 0xff, 0xff, 0xff, 0xff, 0xff] = Inl read_past_end \<and>
   (\<exists>v. read_varuint32 [0x80, 0x80, 0x80, 0x80, 0x80, 0x80, 0x01, 0x2a] = Inr (v, [0x2a]))"
  using read_varuint32_fails_only_at_end[of "[0xff, 0xff, 0xff, 0xff, 0xff, 0xff]"]
        read_varuint32_fails_only_at_end[of "[0x80, 0x80, 0x80, 0x80, 0x80, 0x80, 0x01, 0x2a]"]
  by simp

section \<open>Verification: evaluation of \<^verbatim>\<open>push_raw\<close>\<close>

lemma le_bytes_numeral:
  "le_bytes (numeral k) v = word_of_nat (v mod 256) # le_bytes (pred_numeral k) (v div 256)"
proof -
  have "le_bytes (Suc (pred_numeral k)) v =
      word_of_nat (v mod 256) # le_bytes (pred_numeral k) (v div 256)"
    by (rule le_bytes.simps)
  then show ?thesis by (simp only: numeral_eq_Suc[of k])
qed


section \<open>Verification: the two string readers\<close>

text \<open>
  C10. After the length prefix \<open>sz\<close> has been read and \<open>rest\<close> is what remains of the
  buffer, \<^verbatim>\<open>bin_to_native\<close> of \<^verbatim>\<open>std::string\<close> throws "invalid string size" when
  \<open>sz\<close> is greater than or equal to the number of remaining bytes, \<^verbatim>\<open>read_string\<close> only
  when it is greater. A string that fills the rest of the buffer exactly is rejected by
  the first and returned by the second; a shorter one is read alike by both.
\<close>

theorem string_size_check_native_vs_abi:
  assumes "read_varuint32 (n_bin state) = Inr (sz, rest)"
  shows "(bin_to_native std_string p state start = Inl invalid_string_size
            \<longleftrightarrow> length rest \<le> unat sz) \<and>
         (read_string (n_bin state) = Inl invalid_string_size \<longleftrightarrow> length rest < unat sz) \<and>
         (unat sz = length rest \<longrightarrow>
            bin_to_native std_string p state start = Inl invalid_string_size \<and>
            read_string (n_bin state) = Inr (map char_of_byte rest, [])) \<and>
         (unat sz < length rest \<longrightarrow>
            bin_to_native std_string p state start =
              Inr (state\<lparr>n_bin := drop (unat sz) rest,
                         n_mem := (n_mem state)(p \<mapsto>
                           string_cell (map char_of_byte (take (unat sz) rest)))\<rparr>) \<and>
            read_string (n_bin state) =
              Inr (map char_of_byte (take (unat sz) rest), drop (unat sz) rest))"
  using assms by (auto simp add: read_string_def read_bin_def)

theorem string_size_check_native_vs_abi_witness:
  "read_varuint32 [0x02, 0x68, 0x69] = Inr (2, [0x68, 0x69]) \<and>
   unat (2 :: 32 word) = length [0x68 :: byte, 0x69] \<and>
   bin_to_native std_string [] \<lparr>n_bin = [0x02, 0x68, 0x69], n_stack = [], n_mem = Map.empty\<rparr> True
     = Inl invalid_string_size \<and>
   read_string [0x02, 0x68, 0x69] = Inr (''hi'', [])"
proof -
  have r: "read_varuint32 (n_bin \<lparr>n_bin = [0x02, 0x68, 0x69], n_stack = [], n_mem = Map.empty\<rparr>)
             = Inr (2, [0x68, 0x69])"
    by (simp add: read_varuint32_def)
  have c: "map char_of_byte [0x68, 0x69] = ''hi''"
    unfolding char_of_byte_def by code_simp
  show ?thesis
    using string_size_check_native_vs_abi[OF r, of "[]" True] r c by simp
qed

section \<open>Verification: names\<close>

lemma W_same:
  fixes name x :: "64 word"
  assumes "s \<le> 59"
  shows "take_bit 5 (drop_bit s (name OR push_bit s (take_bit 5 x))) =
     take_bit 5 (drop_bit s name) OR take_bit 5 x"
proof (rule bit_word_eqI)
  fix n assume "n < LENGTH(64)"
  have "n < 5 \<Longrightarrow> s + n < 64" using assms by simp
  then show "bit (take_bit 5 (drop_bit s (name OR push_bit s (take_bit 5 x)))) n =
     bit (take_bit 5 (drop_bit s name) OR take_bit 5 x) n"
    by (simp only: bit_take_bit_iff bit_drop_bit_eq bit_or_iff bit_push_bit_iff o_def
        possible_bit_word) auto
qed

lemma W_other:
  fixes name y :: "64 word"
  assumes "t + 5 \<le> s \<or> s + k \<le> t"
  shows "take_bit k (drop_bit s (name OR push_bit t (take_bit 5 y))) =
     take_bit k (drop_bit s name)"
proof (rule bit_word_eqI)
  fix n assume "n < LENGTH(64)"
  have "n < k \<Longrightarrow> t \<le> s + n \<Longrightarrow> \<not> s + n - t < 5" using assms by auto
  then show "bit (take_bit k (drop_bit s (name OR push_bit t (take_bit 5 y)))) n =
     bit (take_bit k (drop_bit s name)) n"
    by (simp only: bit_take_bit_iff bit_drop_bit_eq bit_or_iff bit_push_bit_iff o_def
        possible_bit_word) auto
qed

lemma W_low:
  fixes name y :: "64 word"
  assumes "4 \<le> s"
  shows "take_bit 5 (drop_bit s (name OR take_bit 4 y)) = take_bit 5 (drop_bit s name)"
proof (rule bit_word_eqI)
  fix n assume "n < LENGTH(64)"
  have "\<not> s + n < 4" using assms by simp
  then show "bit (take_bit 5 (drop_bit s (name OR take_bit 4 y))) n =
     bit (take_bit 5 (drop_bit s name)) n"
    by (simp only: bit_take_bit_iff bit_drop_bit_eq bit_or_iff o_def) auto
qed

lemma W_low4:
  fixes name y :: "64 word"
  shows "take_bit 4 (name OR take_bit 4 y) = take_bit 4 name OR take_bit 4 y"
  by (rule bit_word_eqI) (simp only: bit_take_bit_iff bit_or_iff, auto)

lemma and_1f: "(x :: 64 word) AND 0x1f = take_bit 5 x"
proof -
  have "(0x1f :: 64 word) = mask 5" by (simp add: mask_eq_exp_minus_1)
  then show ?thesis by (simp add: take_bit_eq_mask)
qed

lemma and_0f: "(x :: 64 word) AND 0x0f = take_bit 4 x"
proof -
  have "(0x0f :: 64 word) = mask 4" by (simp add: mask_eq_exp_minus_1)
  then show ?thesis by (simp add: take_bit_eq_mask)
qed

lemma c_at_nth: "i < length str \<Longrightarrow> c_at str i = str ! i"
  by (simp add: c_at_def)

lemma c_at_end: "length str \<le> i \<Longrightarrow> c_at str i = CHR 0x00"
  by (simp add: c_at_def)

lemma string_to_name_loop_step:
  "c_at str i \<noteq> CHR 0x00 \<Longrightarrow> i < 12 \<Longrightarrow>
   string_to_name_loop str i name =
     string_to_name_loop str (i + 1)
       (name OR push_bit (59 - 5 * i) (take_bit 5 (char_to_symbol (c_at str i))))"
proof -
  assume a: "c_at str i \<noteq> CHR 0x00" "i < 12"
  then have "64 - 5 * (i + 1) = 59 - 5 * i" by simp
  with a show ?thesis
    by (subst string_to_name_loop.simps) (simp add: and_1f)
qed

lemma string_to_name_loop_stop:
  "c_at str i = CHR 0x00 \<or> \<not> i < 12 \<Longrightarrow> string_to_name_loop str i name = (i, name)"
  by (subst string_to_name_loop.simps) auto

lemma stn_loop_fst:
  "CHR 0x00 \<notin> set str \<Longrightarrow> i \<le> min 12 (length str) \<Longrightarrow>
   fst (string_to_name_loop str i name) = min 12 (length str)"
proof (induction str i name rule: string_to_name_loop.induct)
  case (1 str i name)
  show ?case
  proof (cases "i < min 12 (length str)")
    case True
    then have "str ! i \<in> set str" by simp
    with True have nz: "c_at str i \<noteq> CHR 0x00" using "1.prems"(1)
      by (metis c_at_nth min_less_iff_conj)
    from True have i12: "i < 12" by simp
    have "fst (string_to_name_loop str (i + 1)
        (name OR push_bit (64 - 5 * (i + 1)) (char_to_symbol (c_at str i) AND 0x1f))) =
        min 12 (length str)"
      using nz i12 "1.prems"(1) True by (intro "1.IH") auto
    then show ?thesis
      by (subst string_to_name_loop.simps) (simp add: nz i12)
  next
    case False
    with "1.prems"(2) have e: "i = min 12 (length str)" by arith
    then have "c_at str i = CHR 0x00 \<or> \<not> i < 12"
      by (cases "length str < 12") (auto simp add: c_at_end)
    then show ?thesis using e by (simp add: string_to_name_loop_stop)
  qed
qed

lemma stn_loop_sym:
  "CHR 0x00 \<notin> set str \<Longrightarrow> i \<le> min 12 (length str) \<Longrightarrow> j < 12 \<Longrightarrow>
   take_bit 5 (drop_bit (59 - 5 * j) (snd (string_to_name_loop str i name))) =
     (if i \<le> j \<and> j < length str
      then take_bit 5 (drop_bit (59 - 5 * j) name) OR take_bit 5 (char_to_symbol (str ! j))
      else take_bit 5 (drop_bit (59 - 5 * j) name))"
proof (induction str i name rule: string_to_name_loop.induct)
  case (1 str i name)
  show ?case
  proof (cases "i < min 12 (length str)")
    case True
    then have "str ! i \<in> set str" by simp
    with True have nz: "c_at str i \<noteq> CHR 0x00" using "1.prems"(1)
      by (metis c_at_nth min_less_iff_conj)
    from True have i12: "i < 12" and ilen: "i < length str" by simp_all
    let ?name' = "name OR push_bit (59 - 5 * i) (take_bit 5 (char_to_symbol (c_at str i)))"
    have e: "64 - 5 * (i + 1) = 59 - 5 * i" using i12 by simp
    have ih: "take_bit 5 (drop_bit (59 - 5 * j) (snd (string_to_name_loop str (i + 1) ?name'))) =
       (if i + 1 \<le> j \<and> j < length str
        then take_bit 5 (drop_bit (59 - 5 * j) ?name') OR take_bit 5 (char_to_symbol (str ! j))
        else take_bit 5 (drop_bit (59 - 5 * j) ?name'))"
      using "1.IH"[OF conjI[OF nz i12] "1.prems"(1) _ "1.prems"(3)] True
      by (simp add: e and_1f)
    have upd: "take_bit 5 (drop_bit (59 - 5 * j) ?name') =
       (if j = i then take_bit 5 (drop_bit (59 - 5 * j) name) OR take_bit 5 (char_to_symbol (str ! i))
        else take_bit 5 (drop_bit (59 - 5 * j) name))"
    proof (cases "j = i")
      case True
      then show ?thesis using W_same[of "59 - 5 * i" name] ilen by (simp add: c_at_nth)
    next
      case False
      then have "59 - 5 * i + 5 \<le> 59 - 5 * j \<or> 59 - 5 * j + 5 \<le> 59 - 5 * i"
        using i12 "1.prems"(3) by arith
      from W_other[OF this] False show ?thesis by simp
    qed
    show ?thesis
      unfolding string_to_name_loop_step[OF nz i12] ih upd using ilen by auto
  next
    case False
    with "1.prems"(2) have e: "i = min 12 (length str)" by arith
    then have "c_at str i = CHR 0x00 \<or> \<not> i < 12"
      by (cases "length str < 12") (auto simp add: c_at_end)
    then have "string_to_name_loop str i name = (i, name)" by (rule string_to_name_loop_stop)
    moreover have "(i \<le> j \<and> j < length str) = False" using e "1.prems"(3) by auto
    ultimately show ?thesis by (simp only: snd_conv if_False)
  qed
qed

lemma stn_loop_low:
  "take_bit 4 (snd (string_to_name_loop str i name)) = take_bit 4 name"
proof (induction str i name rule: string_to_name_loop.induct)
  case (1 str i name)
  show ?case
  proof (cases "c_at str i \<noteq> CHR 0x00 \<and> i < 12")
    case True
    then have nz: "c_at str i \<noteq> CHR 0x00" and i12: "i < 12" by simp_all
    have e: "64 - 5 * (i + 1) = 59 - 5 * i" using i12 by simp
    have "59 - 5 * i + 5 \<le> 0 \<or> 0 + 4 \<le> 59 - 5 * i" using i12 by arith
    from W_other[OF this, of name "char_to_symbol (c_at str i)"]
    have "take_bit 4 (name OR push_bit (59 - 5 * i) (take_bit 5 (char_to_symbol (c_at str i)))) =
        take_bit 4 name" by simp
    with "1.IH"[OF True] show ?thesis
      unfolding string_to_name_loop_step[OF nz i12] by (simp add: e and_1f)
  next
    case False
    then have "c_at str i = CHR 0x00 \<or> \<not> i < 12" by auto
    then show ?thesis by (simp add: string_to_name_loop_stop)
  qed
qed

text \<open>The symbols of \<open>string_to_name str\<close>, for a C string of at most 13 characters.\<close>

lemma string_to_name_sym:
  assumes "CHR 0x00 \<notin> set str" "length str \<le> 13" "j < 12"
  shows "take_bit 5 (drop_bit (59 - 5 * j) (string_to_name str)) =
     (if j < length str then take_bit 5 (char_to_symbol (str ! j)) else 0)"
proof -
  obtain i name where l: "string_to_name_loop str 0 0 = (i, name)" by (cases "string_to_name_loop str 0 0")
  have s: "take_bit 5 (drop_bit (59 - 5 * j) name) =
     (if j < length str then take_bit 5 (char_to_symbol (str ! j)) else 0)"
    using stn_loop_sym[OF assms(1) _ assms(3), of 0 0] l by simp
  have "59 - 5 * j \<ge> 4" using assms(3) by simp
  then have w: "take_bit 5 (drop_bit (59 - 5 * j) (name OR take_bit 4 (char_to_symbol (c_at str 12)))) =
     take_bit 5 (drop_bit (59 - 5 * j) name)" by (rule W_low)
  have "string_to_name str = name OR take_bit 4 (char_to_symbol (c_at str 12)) \<or>
      string_to_name str = name"
    by (simp add: string_to_name_def l and_0f)
  then show ?thesis
  proof
    assume "string_to_name str = name OR take_bit 4 (char_to_symbol (c_at str 12))"
    then show ?thesis by (simp only: w s)
  next
    assume "string_to_name str = name"
    then show ?thesis by (simp only: s)
  qed
qed

lemma string_to_name_low:
  assumes "CHR 0x00 \<notin> set str" "length str \<le> 13"
  shows "take_bit 4 (string_to_name str) =
     (if length str = 13 then take_bit 4 (char_to_symbol (str ! 12)) else 0)"
proof -
  obtain i name where l: "string_to_name_loop str 0 0 = (i, name)" by (cases "string_to_name_loop str 0 0")
  have i: "i = min 12 (length str)" using stn_loop_fst[OF assms(1), of 0 0] l by simp
  have low: "take_bit 4 name = 0" using stn_loop_low[of str 0 0] l by simp
  show ?thesis
  proof (cases "length str = 13")
    case True
    with i have "i = 12" by simp
    moreover from True have "c_at str 12 = str ! 12" by (simp add: c_at_nth)
    ultimately show ?thesis using l low True by (simp add: string_to_name_def and_0f W_low4)
  next
    case False
    show ?thesis
    proof (cases "length str = 12")
      case True
      with i have "i = 12" by simp
      moreover from True have "c_at str 12 = CHR 0x00" by (simp add: c_at_end)
      ultimately show ?thesis using l low True
        by (simp add: string_to_name_def and_0f W_low4 char_to_symbol_def char_in_def char_code_def)
    next
      case F2: False
      with False assms(2) i have "i \<noteq> 12" by auto
      then show ?thesis using l low False by (simp add: string_to_name_def)
    qed
  qed
qed

text \<open>The thirteen characters written by the loop of \<^verbatim>\<open>name_to_string\<close>.\<close>

lemma name_to_string_loop_nth:
  "length str = 13 \<Longrightarrow> i \<le> 13 \<Longrightarrow> tmp = drop_bit (if i = 0 then 0 else 5 * i - 1) name \<Longrightarrow>
   length (name_to_string_loop i tmp str) = 13 \<and>
   (\<forall>k<13. name_to_string_loop i tmp str ! k =
      (if k + i \<le> 12
       then (if k = 12 then charmap ! unat (take_bit 4 name)
             else charmap ! unat (take_bit 5 (drop_bit (59 - 5 * k) name)))
       else str ! k))"
proof (induction i tmp str rule: name_to_string_loop.induct)
  case (1 i tmp str)
  show ?case
  proof (cases "i \<le> 12")
    case False
    then have "name_to_string_loop i tmp str = str"
      by (subst name_to_string_loop.simps) simp
    with False "1.prems"(1) show ?thesis by auto
  next
    case True
    define c where "c = charmap ! unat (tmp AND (if i = 0 then 0x0f else 0x1f))"
    define tmp' where "tmp' = drop_bit (if i = 0 then 4 else 5) tmp"
    have unf: "name_to_string_loop i tmp str = name_to_string_loop (i + 1) tmp' (str[12 - i := c])"
      using True by (subst name_to_string_loop.simps) (simp add: c_def tmp'_def Let_def)
    have t': "tmp' = drop_bit (if i + 1 = 0 then 0 else 5 * (i + 1) - 1) name"
      unfolding tmp'_def "1.prems"(3) by (cases "i = 0") (simp_all add: drop_bit_drop_bit)
    have ih: "length (name_to_string_loop (i + 1) tmp' (str[12 - i := c])) = 13 \<and>
       (\<forall>k<13. name_to_string_loop (i + 1) tmp' (str[12 - i := c]) ! k =
          (if k + (i + 1) \<le> 12
           then (if k = 12 then charmap ! unat (take_bit 4 name)
                 else charmap ! unat (take_bit 5 (drop_bit (59 - 5 * k) name)))
           else str[12 - i := c] ! k))"
      using "1.IH"[OF True c_def] "1.prems"(1) True t' unfolding tmp'_def by simp
    have cval: "c = (if 12 - i = 12 then charmap ! unat (take_bit 4 name)
             else charmap ! unat (take_bit 5 (drop_bit (59 - 5 * (12 - i)) name)))"
    proof (cases "i = 0")
      case True
      then show ?thesis unfolding c_def "1.prems"(3) by (simp add: and_0f)
    next
      case False
      with \<open>i \<le> 12\<close> have "5 * i - 1 = 59 - 5 * (12 - i)" and "12 - i \<noteq> 12" by arith+
      with False show ?thesis unfolding c_def "1.prems"(3) by (simp add: and_1f)
    qed
    show ?thesis
    proof (intro conjI allI impI)
      show "length (name_to_string_loop i tmp str) = 13" unfolding unf using ih by simp
    next
      fix k :: nat assume k: "k < 13"
      show "name_to_string_loop i tmp str ! k =
        (if k + i \<le> 12
         then (if k = 12 then charmap ! unat (take_bit 4 name)
               else charmap ! unat (take_bit 5 (drop_bit (59 - 5 * k) name)))
         else str ! k)"
      proof (cases "k = 12 - i")
        case True
        with \<open>i \<le> 12\<close> have "k + i \<le> 12" "\<not> k + (i + 1) \<le> 12" by simp_all
        moreover have "str[12 - i := c] ! k = c" using True "1.prems"(1) k by simp
        ultimately show ?thesis unfolding unf using ih k cval True by simp
      next
        case False
        then have "str[12 - i := c] ! k = str ! k" by simp
        moreover from False \<open>i \<le> 12\<close> have "k + (i + 1) \<le> 12 \<longleftrightarrow> k + i \<le> 12" by arith
        ultimately show ?thesis unfolding unf using ih k by simp
      qed
    qed
  qed
qed

lemma charmap_sym5_all: "list_all (\<lambda>c. charmap ! unat (take_bit 5 (char_to_symbol c)) = c) charmap"
  by code_simp

lemma charmap_sym4_all: "list_all (\<lambda>c. charmap ! unat (take_bit 4 (char_to_symbol c)) = c) (take 16 charmap)"
  by code_simp

lemma charmap_nul: "CHR 0x00 \<notin> set charmap"
  by (simp add: charmap_def)

lemma charmap_0: "charmap ! 0 = CHR ''.''"
  by (simp add: charmap_def)

lemma trim_lemma:
  "(case dropWhile P (rev out) of [] \<Rightarrow> out | x # xs \<Rightarrow> take (length xs + 1) out) =
   (if \<forall>x\<in>set out. P x then out else rev (dropWhile P (rev out)))"
proof (cases "dropWhile P (rev out)")
  case Nil
  then have "\<forall>x\<in>set out. P x" by (simp add: dropWhile_eq_Nil_conv)
  then show ?thesis unfolding Nil by simp
next
  case (Cons x xs)
  then have ne: "\<not> (\<forall>x\<in>set out. P x)"
    by (metis dropWhile_eq_Nil_conv list.distinct(1) set_rev)
  have "rev out = takeWhile P (rev out) @ dropWhile P (rev out)" by simp
  then have "out = rev (dropWhile P (rev out)) @ rev (takeWhile P (rev out))"
    by (metis rev_append rev_rev_ident)
  then have "take (length (dropWhile P (rev out))) out = rev (dropWhile P (rev out))"
    by (metis append_eq_conv_conj length_rev)
  then have "take (length xs + 1) out = rev (x # xs)" unfolding Cons by simp
  moreover from ne have "(\<forall>x\<in>set out. P x) = False" by simp
  ultimately show ?thesis unfolding Cons by (simp only: list.case if_False)
qed

lemma trim_lemma2:
  "(case (case dropWhile P (rev out) of [] \<Rightarrow> None | x # xs \<Rightarrow> Some (length xs)) of
      None \<Rightarrow> out | Some l \<Rightarrow> take (l + 1) out) =
   (if \<forall>x\<in>set out. P x then out else rev (dropWhile P (rev out)))"
proof -
  have "(case (case dropWhile P (rev out) of [] \<Rightarrow> None | x # xs \<Rightarrow> Some (length xs)) of
      None \<Rightarrow> out | Some l \<Rightarrow> take (l + 1) out) =
      (case dropWhile P (rev out) of [] \<Rightarrow> out | x # xs \<Rightarrow> take (length xs + 1) out)"
  proof (cases "dropWhile P (rev out)")
    case Nil
    show ?thesis unfolding Nil by (simp only: list.case option.case)
  next
    case (Cons x xs)
    show ?thesis unfolding Cons by (simp only: list.case option.case)
  qed
  then show ?thesis by (simp only: trim_lemma)
qed

lemma trim_pad:
  "rev (dropWhile (\<lambda>c. c = d) (rev (s @ replicate m d))) = rev (dropWhile (\<lambda>c. c = d) (rev s))"
proof -
  have "dropWhile (\<lambda>c. c = d) (replicate m d @ rev s) = dropWhile (\<lambda>c. c = d) (rev s)"
    by (induction m) simp_all
  then show ?thesis by simp
qed

text \<open>
  C5, as stated, fails: the thirteenth character has only 4 bits, so a name of 13
  characters ending in a letter beyond \<open>j\<close> does not come back.
\<close>

theorem name_roundtrip_counterexample:
  "name_to_string (string_to_name ''aaaaaaaaaaaaz'') = ''aaaaaaaaaaaaj''"
  by code_simp

text \<open>
  C5, amended. For a string over the name alphabet of at most 13 characters whose
  thirteenth character, if there is one, is among the first 16 symbols
  (\<open>.\<close>, \<open>1\<close> to \<open>5\<close>, \<open>a\<close> to \<open>j\<close>), \<open>name_to_string (string_to_name s)\<close> is \<open>s\<close>
  without its trailing dots; when \<open>s\<close> consists of dots only (the empty string
  included) the result is the string of 13 dots.
\<close>

theorem name_roundtrip:
  assumes "set s \<subseteq> set charmap" and "length s \<le> 13"
    and "length s = 13 \<longrightarrow> s ! 12 \<in> set (take 16 charmap)"
  shows "name_to_string (string_to_name s) =
     (if \<forall>c\<in>set s. c = CHR ''.'' then replicate 13 (CHR ''.'')
      else rev (dropWhile (\<lambda>c. c = CHR ''.'') (rev s)))"
proof -
  let ?name = "string_to_name s"
  let ?out = "name_to_string_loop 0 ?name (replicate 13 (CHR ''.''))"
  have nul: "CHR 0x00 \<notin> set s" using assms(1) charmap_nul by auto
  have sym5: "charmap ! unat (take_bit 5 (char_to_symbol c)) = c" if "c \<in> set s" for c
    using charmap_sym5_all assms(1) that by (auto simp add: list_all_iff)
  have loop: "length ?out = 13 \<and>
     (\<forall>k<13. ?out ! k =
        (if k + 0 \<le> 12
         then (if k = 12 then charmap ! unat (take_bit 4 ?name)
               else charmap ! unat (take_bit 5 (drop_bit (59 - 5 * k) ?name)))
         else replicate 13 (CHR ''.'') ! k))"
    by (rule name_to_string_loop_nth) simp_all
  have out: "?out = s @ replicate (13 - length s) (CHR ''.'')"
  proof (rule nth_equalityI)
    show "length ?out = length (s @ replicate (13 - length s) (CHR ''.''))"
      using loop assms(2) by simp
  next
    fix k assume "k < length ?out"
    then have k: "k < 13" using loop by simp
    show "?out ! k = (s @ replicate (13 - length s) (CHR ''.'')) ! k"
    proof (cases "k = 12")
      case True
      have "?out ! k = charmap ! unat (take_bit 4 ?name)" using loop k True by simp
      also have "\<dots> = (if length s = 13 then s ! 12 else CHR ''.'')"
      proof (cases "length s = 13")
        case True
        with assms(3) have "s ! 12 \<in> set (take 16 charmap)" by simp
        with charmap_sym4_all have "charmap ! unat (take_bit 4 (char_to_symbol (s ! 12))) = s ! 12"
          by (auto simp add: list_all_iff)
        with True show ?thesis by (simp add: string_to_name_low[OF nul assms(2)])
      next
        case False
        then show ?thesis by (simp add: string_to_name_low[OF nul assms(2)] charmap_0)
      qed
      also have "\<dots> = (s @ replicate (13 - length s) (CHR ''.'')) ! k"
        using True assms(2) by (auto simp add: nth_append)
      finally show ?thesis .
    next
      case False
      with k have k12: "k < 12" by simp
      have "?out ! k = charmap ! unat (take_bit 5 (drop_bit (59 - 5 * k) ?name))"
        using loop k False by simp
      also have "\<dots> = (if k < length s then s ! k else CHR ''.'')"
        using sym5[of "s ! k"] by (simp add: string_to_name_sym[OF nul assms(2) k12] charmap_0)
      also have "\<dots> = (s @ replicate (13 - length s) (CHR ''.'')) ! k"
        using k assms(2) by (auto simp add: nth_append)
      finally show ?thesis .
    qed
  qed
  have nts: "name_to_string ?name =
      (if \<forall>x\<in>set ?out. x = CHR ''.'' then ?out else rev (dropWhile (\<lambda>c. c = CHR ''.'') (rev ?out)))"
    unfolding name_to_string_def find_last_not_of_def Let_def
    by (rule trim_lemma2)
  show ?thesis
  proof (cases "\<forall>c\<in>set s. c = CHR ''.''")
    case True
    then have "s = replicate (length s) (CHR ''.'')"
      by (simp add: replicate_length_same)
    then have "s @ replicate (13 - length s) (CHR ''.'') = replicate 13 (CHR ''.'')"
      using assms(2) by (metis replicate_add le_add_diff_inverse)
    with True show ?thesis unfolding nts out by simp
  next
    case False
    then have "\<not> (\<forall>x\<in>set (s @ replicate (13 - length s) (CHR ''.'')). x = CHR ''.'')" by auto
    with False show ?thesis unfolding nts out by (simp only: if_False trim_pad)
  qed
qed

theorem name_roundtrip_witness:
  "set ''eosio.token..'' \<subseteq> set charmap \<and> length ''eosio.token..'' \<le> 13 \<and>
   ''eosio.token..'' ! 12 \<in> set (take 16 charmap) \<and>
   name_to_string (string_to_name ''eosio.token..'') = ''eosio.token''"
proof -
  have a: "set ''eosio.token..'' \<subseteq> set charmap" by (simp add: charmap_def)
  have b: "length ''eosio.token..'' \<le> 13" by simp
  have c: "''eosio.token..'' ! 12 \<in> set (take 16 charmap)" by (simp add: charmap_def)
  then have c': "length ''eosio.token..'' = 13 \<longrightarrow> ''eosio.token..'' ! 12 \<in> set (take 16 charmap)"
    by simp
  from name_roundtrip[OF a b c'] a b c show ?thesis by simp
qed

section \<open>Verification: pairs in the native codec\<close>
















section \<open>Verification: the depth limit of schema resolution\<close>

lemma get_type_unresolved_chain:
  "unresolved_chain m k n \<Longrightarrow> 32 \<le> depth + n \<Longrightarrow>
   get_type m k depth = Inl abi_recursion_limit_reached"
proof (induction n arbitrary: k depth)
  case 0
  then show ?case by (subst get_type.simps) simp
next
  case (Suc n)
  show ?case
  proof (cases "32 \<le> depth")
    case True
    then show ?thesis by (subst get_type.simps) simp
  next
    case False
    from Suc.prems(1) obtain t where t: "map_of m k = Some t" "alias_of t = None"
      "alias_of_name t \<noteq> []" "unresolved_chain m (alias_of_name t) n"
      by (auto split: option.splits)
    from Suc.prems(2) have "32 \<le> (depth + 1) + n" by simp
    with t(4) have "get_type m (alias_of_name t) (depth + 1) = Inl abi_recursion_limit_reached"
      by (rule Suc.IH)
    with False t show ?thesis by (subst get_type.simps) simp
  qed
qed

lemma get_type_resolved:
  "map_of m k = Some t \<Longrightarrow> alias_of t = Some a \<Longrightarrow> depth < 32 \<Longrightarrow>
   get_type m k depth = Inr (m, a)"
  by (subst get_type.simps) simp

lemma unresolved_chain_shorter:
  "unresolved_chain m k n \<Longrightarrow> n' \<le> n \<Longrightarrow> unresolved_chain m k n'"
proof (induction n' arbitrary: k n)
  case 0
  show ?case by simp
next
  case (Suc n')
  from Suc.prems(2) obtain j where n: "n = Suc j" and le: "n' \<le> j" by (cases n) auto
  from Suc.prems(1) obtain t where t: "map_of m k = Some t" "alias_of t = None"
      "alias_of_name t \<noteq> []" "unresolved_chain m (alias_of_name t) j"
    unfolding n by (auto split: option.splits)
  from t(4) le have "unresolved_chain m (alias_of_name t) n'" by (rule Suc.IH)
  with t show ?case by simp
qed

text \<open>
  The loop of \<^verbatim>\<open>create_contract\<close> that resolves the aliases passes over the entries with
  no \<^verbatim>\<open>alias_of_name\<close>; at the first alias it calls \<^verbatim>\<open>get_type\<close> for the alias's target
  at depth 0, which fails when the alias heads a chain of 33 unresolved aliases.
\<close>

lemma resolve_aliases_first_alias:
  "first_alias m ks = Some k \<Longrightarrow> unresolved_chain m k (Suc 32) \<Longrightarrow>
   resolve_aliases ks m = Inl abi_recursion_limit_reached"
proof (induction ks)
  case Nil
  then show ?case by simp
next
  case (Cons k' ks)
  from Cons.prems(1) obtain t' where t': "map_of m k' = Some t'"
    by (auto split: option.splits)
  show ?case
  proof (cases "alias_of_name t' = []")
    case True
    with Cons.prems(1) t' have "first_alias m ks = Some k" by simp
    then have "resolve_aliases ks m = Inl abi_recursion_limit_reached"
      using Cons.prems(2) by (rule Cons.IH)
    with True t' show ?thesis by simp
  next
    case False
    with Cons.prems(1) t' have k: "k = k'" by simp
    from Cons.prems(2)[unfolded k unresolved_chain.simps(2)] t'
    have "unresolved_chain m (alias_of_name t') 32" by simp
    then have "get_type m (alias_of_name t') 0 = Inl abi_recursion_limit_reached"
      by (rule get_type_unresolved_chain) simp
    with False t' show ?thesis by simp
  qed
qed

lemma create_contract_first_alias:
  assumes d: "declared_types abi = Inr dm"
    and f: "first_alias dm (map fst dm) = Some ka"
    and c: "unresolved_chain dm ka n" and n: "33 \<le> n"
  shows "create_contract abi = Inl abi_recursion_limit_reached"
proof -
  from n have "Suc 32 \<le> n" by simp
  with c have "unresolved_chain dm ka (Suc 32)" by (rule unresolved_chain_shorter)
  with f have "resolve_aliases (map fst dm) dm = Inl abi_recursion_limit_reached"
    by (rule resolve_aliases_first_alias)
  with d show ?thesis by (simp add: create_contract_def)
qed

text \<open>
  C7, as stated, fails: the order in which the aliases are resolved matters. The schema
  \<open>alias_chain_tail_first\<close> has an alias chain of length 33 and is loaded without error.
\<close>

theorem alias_chain_33_loads_counterexample:
  "\<not> isl (create_contract alias_chain_tail_first)"
  by code_simp

text \<open>
  C7, amended. \<^verbatim>\<open>get_type\<close> fails with "abi recursion limit reached" when it is called
  at depth \<open>d\<close> for the head of a chain of \<open>n\<close> aliases that are not resolved yet, with
  \<open>d + n \<ge> 32\<close>. An alias that has been resolved before is answered from its
  \<^verbatim>\<open>alias_of\<close> pointer at any depth below 32, without a further call. \<^verbatim>\<open>create_contract\<close>
  resolves the aliases in key order, the target of each from depth 0: when the first
  alias in key order heads a chain of 33 or more aliases of the schema, the load fails
  with "abi recursion limit reached".
\<close>

theorem get_type_depth_limit:
  "(unresolved_chain m k n \<and> 32 \<le> depth + n \<longrightarrow>
      get_type m k depth = Inl abi_recursion_limit_reached) \<and>
   (map_of m' k' = Some t \<and> alias_of t = Some a \<and> depth' < 32 \<longrightarrow>
      get_type m' k' depth' = Inr (m', a)) \<and>
   (declared_types abi = Inr dm \<and> first_alias dm (map fst dm) = Some ka \<and>
    unresolved_chain dm ka n' \<and> 33 \<le> n' \<longrightarrow>
      create_contract abi = Inl abi_recursion_limit_reached)"
  using get_type_unresolved_chain get_type_resolved create_contract_first_alias by blast

lemma alias_chain_unresolved_32: "unresolved_chain alias_chain_unresolved ''a02'' 32"
  by code_simp

lemma alias_chain_unresolved_33: "unresolved_chain alias_chain_unresolved ''a01'' 33"
  by code_simp

lemma alias_chain_declared: "declared_types alias_chain_head_first = Inr alias_chain_unresolved"
  by code_simp

lemma alias_chain_first_alias:
  "first_alias alias_chain_unresolved (map fst alias_chain_unresolved) = Some ''a01''"
  by code_simp

lemma alias_chain_resolved_a01:
  "map_of (map_modify ''a01'' (\<lambda>t. t\<lparr>alias_of := Some ''uint8''\<rparr>) alias_chain_unresolved) ''a01''
     = Some ((new_abi_type ''a01'')\<lparr>alias_of_name := ''a02'', alias_of := Some ''uint8''\<rparr>)"
  by code_simp

theorem get_type_depth_limit_witness:
  "unresolved_chain alias_chain_unresolved ''a02'' 32 \<and>
   get_type alias_chain_unresolved ''a02'' 0 = Inl abi_recursion_limit_reached \<and>
   get_type (map_modify ''a01'' (\<lambda>t. t\<lparr>alias_of := Some ''uint8''\<rparr>) alias_chain_unresolved)
     ''a01'' 31 =
     Inr (map_modify ''a01'' (\<lambda>t. t\<lparr>alias_of := Some ''uint8''\<rparr>) alias_chain_unresolved, ''uint8'') \<and>
   declared_types alias_chain_head_first = Inr alias_chain_unresolved \<and>
   first_alias alias_chain_unresolved (map fst alias_chain_unresolved) = Some ''a01'' \<and>
   unresolved_chain alias_chain_unresolved ''a01'' 33 \<and>
   create_contract alias_chain_head_first = Inl abi_recursion_limit_reached"
proof -
  have a: "alias_of ((new_abi_type ''a01'')\<lparr>alias_of_name := ''a02'', alias_of := Some ''uint8''\<rparr>)
     = Some ''uint8''" by simp
  from get_type_depth_limit[of alias_chain_unresolved "''a02''" 32 0
      "map_modify ''a01'' (\<lambda>t. t\<lparr>alias_of := Some ''uint8''\<rparr>) alias_chain_unresolved" "''a01''"
      "(new_abi_type ''a01'')\<lparr>alias_of_name := ''a02'', alias_of := Some ''uint8''\<rparr>" "''uint8''" 31
      alias_chain_head_first alias_chain_unresolved "''a01''" 33]
    alias_chain_unresolved_32 alias_chain_unresolved_33 alias_chain_declared
    alias_chain_first_alias alias_chain_resolved_a01 a
  show ?thesis by simp
qed

section \<open>Verification: the encoding of an asset\<close>

lemma string_to_asset_1_EOS:
  "string_to_asset (c_str ''1.0000 EOS'') = \<lparr>amount = 10000, sym = 0x534f4504\<rparr>"
  by code_simp

lemma push_raw_1_EOS:
  "push_raw (10000 :: 64 word) @ push_raw (0x534f4504 :: 64 word) =
     [0x10, 0x27, 0x00, 0x00, 0x00, 0x00, 0x00, 0x00, 0x04, 0x45, 0x4F, 0x53, 0x00, 0x00, 0x00, 0x00]"
  by (simp add: push_raw_def le_bytes_numeral)

lemma json_to_bin_builtin_1_EOS:
  "json_to_bin_builtin ext ser_asset (d\<lparr>value_string := ''1.0000 EOS''\<rparr>) received_string =
     Inr [0x10, 0x27, 0x00, 0x00, 0x00, 0x00, 0x00, 0x00, 0x04, 0x45, 0x4F, 0x53, 0x00, 0x00, 0x00, 0x00]"
  by (simp add: json_to_bin_builtin_def from_string_def string_to_asset_1_EOS push_raw_1_EOS Let_def
        del: append.simps)

text \<open>
  C6. Under a type whose serializer is that of \<^verbatim>\<open>asset\<close>, the JSON string
  \<^verbatim>\<open>"1.0000 EOS"\<close> is encoded as the 16 bytes
  \<^verbatim>\<open>10 27 00 00 00 00 00 00 04 45 4F 53 00 00 00 00\<close>: the amount 10000 as a little-endian
  64-bit integer, then the symbol, which is the precision byte 04 followed by the code
  \<open>EOS\<close>, one byte per letter from the lowest byte up, and zeros.
\<close>

theorem asset_1_EOS_encoding:
  assumes "map_of m t = Some type" and "ser type = Some ser_asset"
  shows "json_to_bin ext m t (json_string ''1.0000 EOS'') =
     Some (Inr [0x10, 0x27, 0x00, 0x00, 0x00, 0x00, 0x00, 0x00,
                0x04, 0x45, 0x4F, 0x53, 0x00, 0x00, 0x00, 0x00]) \<and>
   string_to_asset (c_str ''1.0000 EOS'') = \<lparr>amount = 10000, sym = 0x534f4504\<rparr> \<and>
   push_raw (10000 :: 64 word) = [0x10, 0x27, 0x00, 0x00, 0x00, 0x00, 0x00, 0x00] \<and>
   push_raw (0x534f4504 :: 64 word) = [0x04, 0x45, 0x4F, 0x53, 0x00, 0x00, 0x00, 0x00]"
proof (intro conjI)
  let ?d = "\<lparr>value_bool = False, value_string = ''1.0000 EOS'', key = []\<rparr>"
  let ?s = "\<lparr>received_data = ?d, started = True, jb_bin = [], size_insertions = [], jb_stack = []\<rparr>"
  have d: "?d = \<lparr>value_bool = False, value_string = [], key = []\<rparr>\<lparr>value_string := ''1.0000 EOS''\<rparr>"
    by simp
  have "ser_json_to_bin ext m t ?s received_string True =
      Some (Inr (?s\<lparr>jb_bin := [0x10, 0x27, 0x00, 0x00, 0x00, 0x00, 0x00, 0x00,
                                0x04, 0x45, 0x4F, 0x53, 0x00, 0x00, 0x00, 0x00]\<rparr>))"
    by (subst ser_json_to_bin.simps) (simp add: assms d json_to_bin_builtin_1_EOS del: event_data.update_convs)
  then show "json_to_bin ext m t (json_string ''1.0000 EOS'') =
     Some (Inr [0x10, 0x27, 0x00, 0x00, 0x00, 0x00, 0x00, 0x00,
                0x04, 0x45, 0x4F, 0x53, 0x00, 0x00, 0x00, 0x00])"
    by (simp add: json_to_bin_def handler_call_def receive_event_def max_stack_size_def)
  show "string_to_asset (c_str ''1.0000 EOS'') = \<lparr>amount = 10000, sym = 0x534f4504\<rparr>"
    by (rule string_to_asset_1_EOS)
  show "push_raw (10000 :: 64 word) = [0x10, 0x27, 0x00, 0x00, 0x00, 0x00, 0x00, 0x00]"
    by (simp add: push_raw_def le_bytes_numeral)
  show "push_raw (0x534f4504 :: 64 word) = [0x04, 0x45, 0x4F, 0x53, 0x00, 0x00, 0x00, 0x00]"
    by (simp add: push_raw_def le_bytes_numeral)
qed

lemma struct_S_types_asset:
  "map_of struct_S_types ''asset'' = Some ((new_abi_type ''asset'')\<lparr>ser := Some ser_asset\<rparr>)"
  by code_simp

theorem asset_1_EOS_encoding_witness:
  "map_of struct_S_types ''asset'' = Some ((new_abi_type ''asset'')\<lparr>ser := Some ser_asset\<rparr>) \<and>
   json_to_bin no_externals struct_S_types ''asset'' (json_string ''1.0000 EOS'') =
     Some (Inr [0x10, 0x27, 0x00, 0x00, 0x00, 0x00, 0x00, 0x00,
                0x04, 0x45, 0x4F, 0x53, 0x00, 0x00, 0x00, 0x00])"
  using asset_1_EOS_encoding[of struct_S_types "''asset''"
          "(new_abi_type ''asset'')\<lparr>ser := Some ser_asset\<rparr>" no_externals, THEN conjunct1]
        struct_S_types_asset
  by (simp add: new_abi_type_def)

section \<open>Verification: the tag byte of an optional\<close>

lemma bin_to_json_loop_empty:
  "bj_stack state = [] \<Longrightarrow> bin_to_json_loop ext m state = Some (Inr state)"
  by (subst bin_to_json_loop.simps) simp

lemma ser_bin_to_json_optional:
  assumes "map_of m t = Some type" and "ser type = Some pseudo_optional"
    and "optional_of type = Some inner"
  shows "ser_bin_to_json ext m t state start =
     (case bj_bin state of
        [] \<Rightarrow> Inl read_past_end
      | tag # rest \<Rightarrow>
          if tag \<noteq> 0 then ser_bin_to_json ext m inner (state\<lparr>bj_bin := rest\<rparr>) True
          else Inr (state\<lparr>bj_bin := rest, writer := writer state @ [w_Null]\<rparr>))"
  by (subst ser_bin_to_json.simps) (simp add: assms split: list.splits)

text \<open>
  C2, as stated, fails: a tag byte other than 0 and 1 is not rejected. Under the type
  \<^verbatim>\<open>string?\<close> of the example schema, the input \<^verbatim>\<open>02 02 68 69\<close>, whose tag byte is 2, is
  decoded as the string \<^verbatim>\<open>"hi"\<close>.
\<close>

theorem optional_tag_2_decodes_counterexample:
  "bin_to_json no_externals struct_S_types ''string?'' [0x02, 0x02, 0x68, 0x69] =
     Some (Inr ([w_String ''hi''], []))"
  by code_simp

text \<open>
  C2, amended. Under an optional type the decoder reads one tag byte. When the tag is 0
  it emits \<^verbatim>\<open>null\<close> and nothing more is read; for every other tag, 1 or not, it goes on
  exactly as the decoder of the inner type does on the bytes after the tag. It fails at
  the tag only when there is no byte to read.
\<close>

theorem optional_tag_decoding:
  assumes "map_of m t = Some type" and "ser type = Some pseudo_optional"
    and "optional_of type = Some inner"
  shows "bin_to_json ext m t [] = Some (Inl read_past_end) \<and>
         bin_to_json ext m t (0 # rest) = Some (Inr ([w_Null], rest)) \<and>
         (tag \<noteq> 0 \<longrightarrow> bin_to_json ext m t (tag # rest) = bin_to_json ext m inner rest)"
  by (simp add: bin_to_json_def ser_bin_to_json_optional[OF assms] bin_to_json_loop_empty)

lemma struct_S_types_optional:
  "map_of struct_S_types ''string?'' =
     Some ((new_abi_type ''string?'')\<lparr>optional_of := Some ''string'', ser := Some pseudo_optional\<rparr>)"
  by code_simp

lemma struct_S_string_hi:
  "bin_to_json no_externals struct_S_types ''string'' [0x02, 0x68, 0x69] =
     Some (Inr ([w_String ''hi''], []))"
  by code_simp

theorem optional_tag_decoding_witness:
  "bin_to_json no_externals struct_S_types ''string?'' [] = Some (Inl read_past_end) \<and>
   bin_to_json no_externals struct_S_types ''string?'' [0x00, 0x02, 0x68, 0x69] =
     Some (Inr ([w_Null], [0x02, 0x68, 0x69])) \<and>
   bin_to_json no_externals struct_S_types ''string?'' [0x01, 0x02, 0x68, 0x69] =
     Some (Inr ([w_String ''hi''], [])) \<and>
   bin_to_json no_externals struct_S_types ''string?'' [0xFF, 0x02, 0x68, 0x69] =
     Some (Inr ([w_String ''hi''], []))"
  using optional_tag_decoding[of struct_S_types "''string?''"
          "(new_abi_type ''string?'')\<lparr>optional_of := Some ''string'', ser := Some pseudo_optional\<rparr>"
          "''string''" no_externals "[0x02, 0x68, 0x69]" "0x01"]
        optional_tag_decoding[of struct_S_types "''string?''"
          "(new_abi_type ''string?'')\<lparr>optional_of := Some ''string'', ser := Some pseudo_optional\<rparr>"
          "''string''" no_externals "[0x02, 0x68, 0x69]" "0xFF"]
        struct_S_types_optional struct_S_string_hi
  by (simp add: new_abi_type_def)

end
